theory Spec2Isabelle
  imports Main "HOL-Library.Option_ord" "HOL-Library.Multiset"
begin

section \<open>Data model of the volunteer record board (src/src/App.js)\<close>

text \<open>
  The application is one React component over a hosted table store. Its state hooks become
  one record, its handlers become functions from the state read by the handler (the render
  closure) and the outside world to the state after the setter calls and the new world.
  JavaScript strings are \<open>string\<close>; a nullable text column is \<open>string option\<close>;
  server identifiers and timestamps are natural numbers.

  The number stored in the column \<open>hours\<close> is whatever the built-in \<open>parseFloat\<close> returns
  (possibly NaN), so its type is the parameter \<open>'h\<close>, and the built-ins of the JavaScript
  runtime that the handlers call are collected in the record \<open>builtins\<close>.
\<close>

text \<open>The three values read from \<open>process.env\<close>; a variable that is not set is undefined.\<close>

record config =
  SUPABASE_URL :: "string option"
  SUPABASE_ANON_KEY :: "string option"
  ADMIN_PASSWORD :: "string option"

text \<open>
  A row of table \<open>comments\<close>, as the JSON object the store returns. The comment that
  \<open>addComment\<close> fabricates for the detail view has no key \<open>created_at\<close>.
\<close>

record comment =
  comment_id :: nat
  comment_created_at :: "nat option"
  record_id :: nat
  nickname :: string
  password :: string
  content :: string
  timestamp :: string

text \<open>A row of table \<open>records\<close>.\<close>

record 'h record_row =
  row_id :: nat
  created_at :: nat
  date :: string
  name :: string
  organization :: string
  hours :: 'h
  location :: "string option"
  participants :: "string option"
  description :: "string option"
  author_name :: string
  author_password :: string
  photos :: "string list"

text \<open>A record held by the component: the row spread, plus the key \<open>comments\<close>.\<close>

record 'h volunteer_record = "'h record_row" +
  comments :: "comment list"

text \<open>
  The built-ins of the JavaScript runtime that the handlers call. \<open>date_getTime s\<close> is the
  time value of \<open>new Date(s)\<close>, \<open>None\<close> for an invalid date (NaN); \<open>toISODate t\<close> is
  \<open>new Date().toISOString().split('T')[0]\<close> and \<open>toLocaleString_ko t\<close> is
  \<open>new Date().toLocaleString('ko-KR')\<close> when the clock reads \<open>t\<close>; \<open>engine_sort\<close> is the
  order in which the engine's \<open>Array.prototype.sort\<close> leaves an array of records when the
  comparator is not a consistent comparison function, an order that ECMAScript leaves to
  the implementation.
\<close>

record 'h builtins =
  parseFloat :: "string \<Rightarrow> 'h"
  number_toString :: "'h \<Rightarrow> string"
  date_getTime :: "string \<Rightarrow> int option"
  toISODate :: "nat \<Rightarrow> string"
  toLocaleString_ko :: "nat \<Rightarrow> string"
  engine_sort :: "('h volunteer_record \<Rightarrow> 'h volunteer_record \<Rightarrow> int option)
                  \<Rightarrow> 'h volunteer_record list \<Rightarrow> 'h volunteer_record list"

text \<open>The object literal \<open>newRecord\<close> of \<open>addRecord\<close> and \<open>comment\<close> of \<open>addComment\<close>.\<close>

record 'h new_record =
  new_date :: string
  new_name :: string
  new_organization :: string
  new_hours :: 'h
  new_location :: "string option"
  new_participants :: "string option"
  new_description :: "string option"
  new_author_name :: string
  new_author_password :: string
  new_photos :: "string list"

record new_comment =
  new_record_id :: nat
  new_nickname :: string
  new_password :: string
  new_content :: string
  new_timestamp :: string

text \<open>
  The body of a PATCH is an object with some of the twelve columns of table \<open>records\<close>: a
  list of column assignments, in the order of the object literal.
\<close>

datatype 'h assignment =
    Set_id nat
  | Set_created_at nat
  | Set_date string
  | Set_name string
  | Set_organization string
  | Set_hours 'h
  | Set_location "string option"
  | Set_participants "string option"
  | Set_description "string option"
  | Set_author_name string
  | Set_author_password string
  | Set_photos "string list"

text \<open>The state hooks \<open>formData\<close> and \<open>newComment\<close>.\<close>

record form_data =
  form_date :: string
  form_name :: string
  form_organization :: string
  form_hours :: string
  form_location :: string
  form_participants :: string
  form_description :: string
  form_author_name :: string
  form_author_password :: string

record comment_draft =
  draft_nickname :: string
  draft_password :: string
  draft_content :: string

record 'h app_state =
  records :: "'h volunteer_record list"
  loading :: bool
  currentView :: string
  selectedRecord :: "'h volunteer_record option"
  showModal :: bool
  showEditModal :: bool
  showDeleteModal :: bool
  showCommentDeleteModal :: bool
  deleteTarget :: "nat option"
  editTarget :: "'h volunteer_record option"
  selectedPhotos :: "string list"
  adminPassword :: string
  commentToDelete :: "comment option"
  commentPassword :: string
  editPassword :: string
  newComment :: comment_draft
  sortOrder :: string
  formData :: form_data

section \<open>The world outside the component\<close>

text \<open>The requests the component sends, one constructor for each call site of the client.\<close>

datatype 'h request =
    Select_records
  | Select_comments
  | Insert_record "'h new_record"
  | Insert_comment new_comment
  | Update_record "'h assignment list" nat
  | Delete_comments_of "nat option"
  | Delete_record "nat option"
  | Delete_comment nat

text \<open>
  \<open>Select_records\<close> is \<open>select('records', 'select=*&order=created_at.desc')\<close>,
  \<open>Select_comments\<close> is \<open>select('comments', 'select=*&order=created_at.asc')\<close>,
  \<open>Update_record d i\<close> is \<open>update('records', d, 'id=eq.i')\<close>,
  \<open>Delete_comments_of t\<close> is \<open>delete('comments', 'record_id=eq.t')\<close>,
  \<open>Delete_record t\<close> is \<open>delete('records', 'id=eq.t')\<close> and
  \<open>Delete_comment i\<close> is \<open>delete('comments', 'id=eq.i')\<close>; the target of the two
  deletes of \<open>deleteRecord\<close> is the state hook \<open>deleteTarget\<close>, which may be null.
\<close>

datatype 'h response =
    Record_rows "'h record_row list"
  | Comment_rows "comment list"
  | No_content

datatype outcome = Success | Http_failure | Malformed_body

datatype js_error = Http_error | Invalid_json | Type_error

datatype alert =
    Load_failed
  | Photo_limit nat
  | Required_fields
  | Record_added
  | Record_add_failed
  | Wrong_password
  | Record_updated
  | Record_update_failed
  | Wrong_admin_password
  | Record_deleted
  | Record_delete_failed
  | Comment_fields_required
  | Comment_added
  | Comment_add_failed
  | Comment_deleted
  | Comment_delete_failed

text \<open>
  The world: the two tables of the store, the sequences and the clock of the server, the
  outcome of the coming requests (none listed: success), the requests sent so far, the
  alerts shown so far, the exceptions no handler caught, and the files whose conversion
  by a \<open>FileReader\<close> has started and not completed (a file is identified with the data URL
  its conversion yields).
\<close>

record 'h world =
  tbl_records :: "'h record_row list"
  tbl_comments :: "comment list"
  next_record_id :: nat
  next_comment_id :: nat
  now :: nat
  outcomes :: "outcome list"
  requests :: "'h request list"
  alerts :: "alert list"
  uncaught :: "js_error list"
  pending_reads :: "string list"

definition alert :: "alert \<Rightarrow> 'h world \<Rightarrow> 'h world" where
  "alert a w = w\<lparr>alerts := alerts w @ [a]\<rparr>"

subsection \<open>The backing store\<close>

text \<open>
  Modelled from the spec: the hosted store behind the REST endpoint is an external service,
  so nothing of it is in the repository. The model follows section 6 of the specification
  and the table definitions quoted in the setup screen of App.js: an insert appends a row
  with the next identifier of the sequence and the current time as \<open>created_at\<close>; an update
  or a delete scoped by \<open>col=eq.value\<close> touches exactly the rows whose column equals the
  value; a select returns the whole table ordered by \<open>created_at\<close>. A filter whose value
  is the text "null" is rejected by the store (the column is a number).
\<close>

fun assign :: "'h assignment \<Rightarrow> 'h record_row \<Rightarrow> 'h record_row" where
  "assign (Set_id v) r = r\<lparr>row_id := v\<rparr>"
| "assign (Set_created_at v) r = r\<lparr>created_at := v\<rparr>"
| "assign (Set_date v) r = r\<lparr>date := v\<rparr>"
| "assign (Set_name v) r = r\<lparr>name := v\<rparr>"
| "assign (Set_organization v) r = r\<lparr>organization := v\<rparr>"
| "assign (Set_hours v) r = r\<lparr>hours := v\<rparr>"
| "assign (Set_location v) r = r\<lparr>location := v\<rparr>"
| "assign (Set_participants v) r = r\<lparr>participants := v\<rparr>"
| "assign (Set_description v) r = r\<lparr>description := v\<rparr>"
| "assign (Set_author_name v) r = r\<lparr>author_name := v\<rparr>"
| "assign (Set_author_password v) r = r\<lparr>author_password := v\<rparr>"
| "assign (Set_photos v) r = r\<lparr>photos := v\<rparr>"

definition patch :: "'h assignment list \<Rightarrow> 'h record_row \<Rightarrow> 'h record_row" where
  "patch d r = fold assign d r"

definition insert_row :: "'h new_record \<Rightarrow> nat \<Rightarrow> nat \<Rightarrow> 'h record_row" where
  "insert_row d i t =
     \<lparr>row_id = i, created_at = t, date = new_date d, name = new_name d,
      organization = new_organization d, hours = new_hours d, location = new_location d,
      participants = new_participants d, description = new_description d,
      author_name = new_author_name d, author_password = new_author_password d,
      photos = new_photos d\<rparr>"

definition insert_comment_row :: "new_comment \<Rightarrow> nat \<Rightarrow> nat \<Rightarrow> comment" where
  "insert_comment_row d i t =
     \<lparr>comment_id = i, comment_created_at = Some t, record_id = new_record_id d,
      nickname = new_nickname d, password = new_password d, content = new_content d,
      timestamp = new_timestamp d\<rparr>"

fun serve :: "'h request \<Rightarrow> 'h world \<Rightarrow> ('h response \<times> 'h world) option" where
  "serve Select_records w = Some (Record_rows (rev (sort_key created_at (tbl_records w))), w)"
| "serve Select_comments w = Some (Comment_rows (sort_key comment_created_at (tbl_comments w)), w)"
| "serve (Insert_record d) w =
     Some (No_content,
       w\<lparr>tbl_records := tbl_records w @ [insert_row d (next_record_id w) (now w)],
         next_record_id := Suc (next_record_id w)\<rparr>)"
| "serve (Insert_comment d) w =
     Some (No_content,
       w\<lparr>tbl_comments := tbl_comments w @ [insert_comment_row d (next_comment_id w) (now w)],
         next_comment_id := Suc (next_comment_id w)\<rparr>)"
| "serve (Update_record d i) w =
     Some (No_content,
       w\<lparr>tbl_records := map (\<lambda>r. if row_id r = i then patch d r else r) (tbl_records w)\<rparr>)"
| "serve (Delete_comments_of None) w = None"
| "serve (Delete_comments_of (Some t)) w =
     Some (No_content, w\<lparr>tbl_comments := filter (\<lambda>c. record_id c \<noteq> t) (tbl_comments w)\<rparr>)"
| "serve (Delete_record None) w = None"
| "serve (Delete_record (Some t)) w =
     Some (No_content, w\<lparr>tbl_records := filter (\<lambda>r. row_id r \<noteq> t) (tbl_records w)\<rparr>)"
| "serve (Delete_comment i) w =
     Some (No_content, w\<lparr>tbl_comments := filter (\<lambda>c. comment_id c \<noteq> i) (tbl_comments w)\<rparr>)"

subsection \<open>The client: \<open>SupabaseClient.fetch\<close>\<close>

text \<open>
  One request is sent. A response that is not ok throws; an ok response with a body that
  is not JSON throws after the store has done the work; an empty body is the empty array.
\<close>

definition next_outcome :: "'h world \<Rightarrow> outcome \<times> 'h world" where
  "next_outcome w =
     (case outcomes w of [] \<Rightarrow> (Success, w) | x # xs \<Rightarrow> (x, w\<lparr>outcomes := xs\<rparr>))"

definition fetch :: "'h request \<Rightarrow> 'h world \<Rightarrow> (js_error + 'h response) \<times> 'h world" where
  "fetch rq w =
     (let (out, w0) = next_outcome w;
          w1 = w0\<lparr>requests := requests w0 @ [rq]\<rparr>
      in case out of
           Http_failure \<Rightarrow> (Inl Http_error, w1)
         | Malformed_body \<Rightarrow>
             (case serve rq w1 of None \<Rightarrow> (Inl Http_error, w1)
              | Some (res, w2) \<Rightarrow> (Inl Invalid_json, w2))
         | Success \<Rightarrow>
             (case serve rq w1 of None \<Rightarrow> (Inl Http_error, w1)
              | Some (res, w2) \<Rightarrow> (Inr res, w2)))"

section \<open>The handlers of the component\<close>

text \<open>
  A handler reads the state of the render in which it was created (its closure) and
  writes through the setters; the functions below take that state and return it with the
  setter calls applied, in the order of the source. The awaits of one handler run in
  sequence, so a handler is one function of the state and the world.
\<close>

subsection \<open>\<open>loadRecords\<close>\<close>

text \<open>
  Both selects are inside one \<open>try\<close>: a failure of either is caught, shown as an alert, and
  leaves \<open>records\<close> as it was; \<open>finally\<close> sets \<open>loading\<close> to false on every path (it is true
  while the selects run). \<open>loadRecords\<close> never throws to its caller.
\<close>

definition attach_comments :: "'h record_row list \<Rightarrow> comment list \<Rightarrow> 'h volunteer_record list" where
  "attach_comments recordsData commentsData =
     map (\<lambda>record. record_row.extend record
            (volunteer_record.fields (filter (\<lambda>comment. record_id comment = row_id record) commentsData)))
       recordsData"

definition loadRecords :: "'h app_state \<Rightarrow> 'h world \<Rightarrow> 'h app_state \<times> 'h world" where
  "loadRecords st w =
     (case fetch Select_records w of
        (Inr (Record_rows recordsData), w1) \<Rightarrow>
          (case fetch Select_comments w1 of
             (Inr (Comment_rows commentsData), w2) \<Rightarrow>
               (st\<lparr>records := attach_comments recordsData commentsData, loading := False\<rparr>, w2)
           | (_, w2) \<Rightarrow> (st\<lparr>loading := False\<rparr>, alert Load_failed w2))
      | (_, w1) \<Rightarrow> (st\<lparr>loading := False\<rparr>, alert Load_failed w1))"


subsection \<open>JavaScript idioms used by the handlers\<close>

text \<open>\<open>s || null\<close> and \<open>v || ''\<close> on a string: the empty string is falsy.\<close>

definition or_null :: "string \<Rightarrow> string option" where
  "or_null s = (if s = [] then None else Some s)"

definition or_empty :: "string option \<Rightarrow> string" where
  "or_empty v = (case v of None \<Rightarrow> [] | Some s \<Rightarrow> s)"

text \<open>
  \<open>String.prototype.trim\<close> removes white space and line terminators from both ends. A
  \<open>char\<close> stands for a code unit below 256, where these are TAB, LF, VT, FF, CR, SP and
  NBSP.
\<close>

definition white_space :: "char \<Rightarrow> bool" where
  "white_space c = (c \<in> set [CHR 0x09, CHR 0x0A, CHR 0x0B, CHR 0x0C, CHR 0x0D, CHR 0x20, CHR 0xA0])"

definition trim :: "string \<Rightarrow> string" where
  "trim s = rev (dropWhile white_space (rev (dropWhile white_space s)))"

text \<open>\<open>xs.slice(0, e)\<close>: a negative end counts from the end of the array.\<close>

definition slice0 :: "int \<Rightarrow> 'a list \<Rightarrow> 'a list" where
  "slice0 e xs = (if e < 0 then take (nat (int (length xs) + e)) xs else take (nat e) xs)"

text \<open>
  \<open>Array.prototype.sort\<close> with a comparator. ECMAScript fixes the result only when the
  comparator is a consistent comparison function for the elements of the array: it never
  returns NaN (here \<open>None\<close>), being equal under it is reflexive, symmetric and transitive,
  and being less and being greater are transitive. Then the sort is stable and an element
  \<open>x\<close> goes after \<open>y\<close> only when the comparator is positive on them, which is the list
  \<open>insertion_sort\<close> computes. For any other comparator the order is implementation-defined:
  \<open>array_sort\<close> then returns what the engine does, a parameter. \<open>comparator_value\<close> is
  the number a comparison counts as: a NaN result counts as 0.
\<close>

definition comparator_value :: "int option \<Rightarrow> int" where
  "comparator_value v = (case v of None \<Rightarrow> 0 | Some n \<Rightarrow> n)"

fun insert_sorted :: "('a \<Rightarrow> 'a \<Rightarrow> int option) \<Rightarrow> 'a \<Rightarrow> 'a list \<Rightarrow> 'a list" where
  "insert_sorted cmp x [] = [x]"
| "insert_sorted cmp x (y # ys) =
     (if comparator_value (cmp x y) \<le> 0 then x # y # ys else y # insert_sorted cmp x ys)"

definition insertion_sort :: "('a \<Rightarrow> 'a \<Rightarrow> int option) \<Rightarrow> 'a list \<Rightarrow> 'a list" where
  "insertion_sort cmp xs = foldr (insert_sorted cmp) xs []"

definition consistent_comparator :: "('a \<Rightarrow> 'a \<Rightarrow> int option) \<Rightarrow> 'a list \<Rightarrow> bool" where
  "consistent_comparator cmp xs =
     (\<forall>a \<in> set xs. \<forall>b \<in> set xs. \<forall>c \<in> set xs.
        cmp a b \<noteq> None
      \<and> comparator_value (cmp a a) = 0
      \<and> (comparator_value (cmp a b) = 0 \<longrightarrow> comparator_value (cmp b a) = 0)
      \<and> (comparator_value (cmp a b) = 0 \<and> comparator_value (cmp b c) = 0
           \<longrightarrow> comparator_value (cmp a c) = 0)
      \<and> (comparator_value (cmp a b) < 0 \<and> comparator_value (cmp b c) < 0
           \<longrightarrow> comparator_value (cmp a c) < 0)
      \<and> (comparator_value (cmp a b) > 0 \<and> comparator_value (cmp b c) > 0
           \<longrightarrow> comparator_value (cmp a c) > 0))"

definition array_sort ::
  "(('a \<Rightarrow> 'a \<Rightarrow> int option) \<Rightarrow> 'a list \<Rightarrow> 'a list)
     \<Rightarrow> ('a \<Rightarrow> 'a \<Rightarrow> int option) \<Rightarrow> 'a list \<Rightarrow> 'a list" where
  "array_sort engine cmp xs =
     (if consistent_comparator cmp xs then insertion_sort cmp xs else engine cmp xs)"

text \<open>
  Arrays are objects: \<open>sort\<close> reorders the array it is called on and returns that same
  array, and the spread \<open>[...a]\<close> allocates a new one. Where that matters the arrays live
  in a store of cells addressed by references.
\<close>

record 'a array_store =
  cells :: "nat \<Rightarrow> 'a list"
  fresh :: nat

definition array_spread :: "nat \<Rightarrow> 'a array_store \<Rightarrow> nat \<times> 'a array_store" where
  "array_spread a h = (fresh h, h\<lparr>cells := (cells h)(fresh h := cells h a), fresh := Suc (fresh h)\<rparr>)"

definition array_sort_in_place ::
  "(('a \<Rightarrow> 'a \<Rightarrow> int option) \<Rightarrow> 'a list \<Rightarrow> 'a list)
     \<Rightarrow> ('a \<Rightarrow> 'a \<Rightarrow> int option) \<Rightarrow> nat \<Rightarrow> 'a array_store \<Rightarrow> nat \<times> 'a array_store" where
  "array_sort_in_place engine cmp a h =
     (a, h\<lparr>cells := (cells h)(a := array_sort engine cmp (cells h a))\<rparr>)"

subsection \<open>Photo staging\<close>

definition handlePhotoUpload :: "string list \<Rightarrow> 'h app_state \<Rightarrow> 'h world \<Rightarrow> 'h app_state \<times> 'h world" where
  "handlePhotoUpload files st w =
     (let remainingSlots = 10 - int (length (selectedPhotos st));
          filesToAdd = slice0 remainingSlots files;
          w1 = w\<lparr>pending_reads := pending_reads w @ filesToAdd\<rparr>
      in (st, if int (length files) > remainingSlots
              then alert (Photo_limit (length filesToAdd)) w1 else w1))"

text \<open>
  \<open>reader.onload\<close> of the pending conversion number \<open>i\<close>: the functional update
  \<open>setSelectedPhotos(prev => [...prev, e.target.result])\<close> on the current state.
\<close>

definition reader_onload :: "nat \<Rightarrow> 'h app_state \<Rightarrow> 'h world \<Rightarrow> 'h app_state \<times> 'h world" where
  "reader_onload i st w =
     (if i < length (pending_reads w)
      then (st\<lparr>selectedPhotos := selectedPhotos st @ [pending_reads w ! i]\<rparr>,
            w\<lparr>pending_reads := take i (pending_reads w) @ drop (Suc i) (pending_reads w)\<rparr>)
      else (st, w))"

fun complete_reads :: "nat list \<Rightarrow> 'h app_state \<Rightarrow> 'h world \<Rightarrow> 'h app_state \<times> 'h world" where
  "complete_reads [] st w = (st, w)"
| "complete_reads (i # js) st w =
     (case reader_onload i st w of (st1, w1) \<Rightarrow> complete_reads js st1 w1)"

text \<open>A completion order for \<open>n\<close> pending conversions: each step names one still pending.\<close>

fun completion_order :: "nat \<Rightarrow> nat list \<Rightarrow> bool" where
  "completion_order n [] = (n = 0)"
| "completion_order n (i # js) = (i < n \<and> completion_order (n - 1) js)"

definition removePhoto :: "nat \<Rightarrow> 'h app_state \<Rightarrow> 'h app_state" where
  "removePhoto index st =
     st\<lparr>selectedPhotos := map snd (filter (\<lambda>(i, _). i \<noteq> index)
           (zip [0 ..< length (selectedPhotos st)] (selectedPhotos st)))\<rparr>"

definition resetForm :: "'h builtins \<Rightarrow> 'h world \<Rightarrow> 'h app_state \<Rightarrow> 'h app_state" where
  "resetForm env w st =
     st\<lparr>formData := \<lparr>form_date = toISODate env (now w), form_name = [], form_organization = [],
                      form_hours = [], form_location = [], form_participants = [],
                      form_description = [], form_author_name = [], form_author_password = []\<rparr>,
        selectedPhotos := []\<rparr>"

subsection \<open>Create\<close>

definition addRecord :: "'h builtins \<Rightarrow> 'h app_state \<Rightarrow> 'h world \<Rightarrow> 'h app_state \<times> 'h world" where
  "addRecord env st w =
     (let fd = formData st in
      if form_date fd = [] \<or> form_name fd = [] \<or> form_organization fd = [] \<or> form_hours fd = []
         \<or> form_author_name fd = [] \<or> form_author_password fd = []
      then (st, alert Required_fields w)
      else
        let newRecord =
          \<lparr>new_date = form_date fd, new_name = form_name fd,
           new_organization = form_organization fd,
           new_hours = parseFloat env (form_hours fd),
           new_location = or_null (form_location fd),
           new_participants = or_null (form_participants fd),
           new_description = or_null (form_description fd),
           new_author_name = form_author_name fd,
           new_author_password = form_author_password fd,
           new_photos = selectedPhotos st\<rparr>
        in case fetch (Insert_record newRecord) w of
             (Inl e, w1) \<Rightarrow> (st, alert Record_add_failed w1)
           | (Inr res, w1) \<Rightarrow>
               (case loadRecords st w1 of (st2, w2) \<Rightarrow>
                  (resetForm env w2 (st2\<lparr>showModal := False\<rparr>), alert Record_added w2)))"

text \<open>The close button of the create modal (App.js, 747-750).\<close>

definition closeCreateModal :: "'h builtins \<Rightarrow> 'h app_state \<Rightarrow> 'h world \<Rightarrow> 'h app_state \<times> 'h world" where
  "closeCreateModal env st w = (resetForm env w (st\<lparr>showModal := False\<rparr>), w)"

subsection \<open>Edit\<close>

definition openEditModal :: "'h builtins \<Rightarrow> 'h volunteer_record \<Rightarrow> 'h app_state \<Rightarrow> 'h app_state" where
  "openEditModal env record st =
     st\<lparr>editTarget := Some record,
        formData := \<lparr>form_date = date record, form_name = name record,
                      form_organization = organization record,
                      form_hours = number_toString env (hours record),
                      form_location = or_empty (location record),
                      form_participants = or_empty (participants record),
                      form_description = or_empty (description record),
                      form_author_name = author_name record, form_author_password = []\<rparr>,
        selectedPhotos := photos record,
        showEditModal := True,
        editPassword := []\<rparr>"

definition updateRecord :: "'h builtins \<Rightarrow> 'h app_state \<Rightarrow> 'h world \<Rightarrow> 'h app_state \<times> 'h world" where
  "updateRecord env st w =
     (case editTarget st of
        None \<Rightarrow> (st, w\<lparr>uncaught := uncaught w @ [Type_error]\<rparr>)
      | Some target \<Rightarrow>
          if editPassword st \<noteq> author_password target then (st, alert Wrong_password w)
          else
            let fd = formData st in
            if form_date fd = [] \<or> form_name fd = [] \<or> form_organization fd = []
               \<or> form_hours fd = []
            then (st, alert Required_fields w)
            else
              let updatedData =
                [Set_date (form_date fd), Set_name (form_name fd),
                 Set_organization (form_organization fd),
                 Set_hours (parseFloat env (form_hours fd)),
                 Set_location (or_null (form_location fd)),
                 Set_participants (or_null (form_participants fd)),
                 Set_description (or_null (form_description fd)),
                 Set_photos (selectedPhotos st)]
              in (case fetch (Update_record updatedData (row_id target)) w of
                    (Inl e, w1) \<Rightarrow> (st, alert Record_update_failed w1)
                  | (Inr res, w1) \<Rightarrow>
                      (case loadRecords st w1 of (st2, w2) \<Rightarrow>
                         (let st3 = st2\<lparr>showEditModal := False, editTarget := None,
                                         editPassword := []\<rparr>;
                              st4 = resetForm env w2 st3
                          in (st4\<lparr>currentView := ''main''\<rparr>, alert Record_updated w2)))))"

text \<open>The close button of the edit modal (App.js, 917-926).\<close>

definition closeEditModal :: "'h builtins \<Rightarrow> 'h app_state \<Rightarrow> 'h world \<Rightarrow> 'h app_state \<times> 'h world" where
  "closeEditModal env st w = (resetForm env w (st\<lparr>showEditModal := False, editTarget := None\<rparr>), w)"

subsection \<open>Admin delete\<close>

definition openDeleteModal :: "nat \<Rightarrow> 'h app_state \<Rightarrow> 'h app_state" where
  "openDeleteModal recordId st =
     st\<lparr>deleteTarget := Some recordId, showDeleteModal := True, adminPassword := []\<rparr>"

definition deleteRecord :: "config \<Rightarrow> 'h app_state \<Rightarrow> 'h world \<Rightarrow> 'h app_state \<times> 'h world" where
  "deleteRecord cfg st w =
     (if Some (adminPassword st) \<noteq> ADMIN_PASSWORD cfg then (st, alert Wrong_admin_password w)
      else case fetch (Delete_comments_of (deleteTarget st)) w of
             (Inl e, w1) \<Rightarrow> (st, alert Record_delete_failed w1)
           | (Inr res, w1) \<Rightarrow>
               (case fetch (Delete_record (deleteTarget st)) w1 of
                  (Inl e, w2) \<Rightarrow> (st, alert Record_delete_failed w2)
                | (Inr res2, w2) \<Rightarrow>
                    (case loadRecords st w2 of (st3, w3) \<Rightarrow>
                       (st3\<lparr>showDeleteModal := False, deleteTarget := None, adminPassword := [],
                            currentView := ''main''\<rparr>,
                        alert Record_deleted w3))))"

text \<open>The cancel button of the admin delete modal (App.js, 1091-1096).\<close>

definition cancelDelete :: "'h app_state \<Rightarrow> 'h app_state" where
  "cancelDelete st = st\<lparr>showDeleteModal := False, deleteTarget := None, adminPassword := []\<rparr>"


subsection \<open>Comments\<close>

definition addComment :: "'h builtins \<Rightarrow> nat \<Rightarrow> 'h app_state \<Rightarrow> 'h world \<Rightarrow> 'h app_state \<times> 'h world" where
  "addComment env recordId st w =
     (let nc = newComment st in
      if trim (draft_nickname nc) = [] \<or> trim (draft_password nc) = []
         \<or> trim (draft_content nc) = []
      then (st, alert Comment_fields_required w)
      else
        let comment =
          \<lparr>new_record_id = recordId, new_nickname = trim (draft_nickname nc),
           new_password = draft_password nc, new_content = trim (draft_content nc),
           new_timestamp = toLocaleString_ko env (now w)\<rparr>
        in case fetch (Insert_comment comment) w of
             (Inl e, w1) \<Rightarrow> (st, alert Comment_add_failed w1)
           | (Inr res, w1) \<Rightarrow>
               (case loadRecords st w1 of (st2, w2) \<Rightarrow>
                  (let temporary =
                         \<lparr>comment_id = now w2, comment_created_at = None,
                          record_id = new_record_id comment, nickname = new_nickname comment,
                          password = new_password comment, content = new_content comment,
                          timestamp = new_timestamp comment\<rparr>;
                       st3 = (case find (\<lambda>r. row_id r = recordId) (records st) of
                                None \<Rightarrow> st2
                              | Some updatedRecord \<Rightarrow>
                                  st2\<lparr>selectedRecord :=
                                        Some (updatedRecord\<lparr>comments :=
                                                comments updatedRecord @ [temporary]\<rparr>)\<rparr>)
                   in (st3\<lparr>newComment := \<lparr>draft_nickname = [], draft_password = [],
                                             draft_content = []\<rparr>\<rparr>,
                       alert Comment_added w2))))"

definition openCommentDeleteModal :: "comment \<Rightarrow> 'h app_state \<Rightarrow> 'h app_state" where
  "openCommentDeleteModal c st =
     st\<lparr>commentToDelete := Some c, showCommentDeleteModal := True, commentPassword := []\<rparr>"

definition deleteComment :: "'h app_state \<Rightarrow> 'h world \<Rightarrow> 'h app_state \<times> 'h world" where
  "deleteComment st w =
     (case commentToDelete st of
        None \<Rightarrow> (st, w\<lparr>uncaught := uncaught w @ [Type_error]\<rparr>)
      | Some target \<Rightarrow>
          if commentPassword st \<noteq> password target then (st, alert Wrong_password w)
          else (case fetch (Delete_comment (comment_id target)) w of
                 (Inl e, w1) \<Rightarrow> (st, alert Comment_delete_failed w1)
               | (Inr res, w1) \<Rightarrow>
                   (case loadRecords st w1 of (st2, w2) \<Rightarrow>
                      (let st3 = (case selectedRecord st of
                                    None \<Rightarrow> st2
                                  | Some r \<Rightarrow>
                                      st2\<lparr>selectedRecord :=
                                            map_option
                                              (\<lambda>prev. prev\<lparr>comments :=
                                                 filter (\<lambda>c. comment_id c \<noteq> comment_id target)
                                                   (comments prev)\<rparr>)
                                              (selectedRecord st2)\<rparr>)
                       in (st3\<lparr>showCommentDeleteModal := False, commentToDelete := None,
                               commentPassword := []\<rparr>,
                           alert Comment_deleted w2)))))"

text \<open>The cancel button of the comment delete modal (App.js, 1130-1135).\<close>

definition cancelCommentDelete :: "'h app_state \<Rightarrow> 'h app_state" where
  "cancelCommentDelete st =
     st\<lparr>showCommentDeleteModal := False, commentToDelete := None, commentPassword := []\<rparr>"

subsection \<open>The sorted view\<close>

text \<open>The comparator of \<open>getSortedRecords\<close>: a difference of two time values, NaN if one is.\<close>

definition compare_dates ::
  "'h builtins \<Rightarrow> string \<Rightarrow> 'h volunteer_record \<Rightarrow> 'h volunteer_record \<Rightarrow> int option" where
  "compare_dates env order a b =
     (case (date_getTime env (date a), date_getTime env (date b)) of
        (Some ta, Some tb) \<Rightarrow> Some (if order = ''newest'' then tb - ta else ta - tb)
      | _ \<Rightarrow> None)"

text \<open>
  \<open>getSortedRecords\<close> on the array store: \<open>recordsRef\<close> is the array held by the state hook
  \<open>records\<close>; the result is the reference of the sorted array and the store afterwards.
\<close>

definition getSortedRecords ::
  "'h builtins \<Rightarrow> string \<Rightarrow> nat \<Rightarrow> 'h volunteer_record array_store
     \<Rightarrow> nat \<times> 'h volunteer_record array_store" where
  "getSortedRecords env order recordsRef h =
     (case array_spread recordsRef h of
        (copy, h1) \<Rightarrow>
          array_sort_in_place (engine_sort env) (compare_dates env order) copy h1)"

text \<open>\<open>const sortedRecords = getSortedRecords()\<close> in a render of state \<open>st\<close>.\<close>

definition sortedRecords :: "'h builtins \<Rightarrow> 'h app_state \<Rightarrow> 'h volunteer_record list" where
  "sortedRecords env st =
     (case getSortedRecords env (sortOrder st) 0 \<lparr>cells = (\<lambda>a. records st), fresh = 1\<rparr> of
        (sorted_ref, h) \<Rightarrow> cells h sorted_ref)"

subsection \<open>Rendering and mounting\<close>

datatype screen = Setup_required | Loading_screen | Board

definition render :: "config \<Rightarrow> 'h app_state \<Rightarrow> screen" where
  "render cfg st =
     (if SUPABASE_URL cfg = Some ''YOUR_SUPABASE_URL''
         \<or> SUPABASE_ANON_KEY cfg = Some ''YOUR_SUPABASE_ANON_KEY''
      then Setup_required
      else if loading st then Loading_screen else Board)"

definition initial_state :: "'h builtins \<Rightarrow> 'h world \<Rightarrow> 'h app_state" where
  "initial_state env w =
     \<lparr>records = [], loading = True, currentView = ''main'', selectedRecord = None,
      showModal = False, showEditModal = False, showDeleteModal = False,
      showCommentDeleteModal = False, deleteTarget = None, editTarget = None,
      selectedPhotos = [], adminPassword = [], commentToDelete = None, commentPassword = [],
      editPassword = [],
      newComment = \<lparr>draft_nickname = [], draft_password = [], draft_content = []\<rparr>,
      sortOrder = ''newest'',
      formData = \<lparr>form_date = toISODate env (now w), form_name = [], form_organization = [],
                  form_hours = [], form_location = [], form_participants = [],
                  form_description = [], form_author_name = [], form_author_password = []\<rparr>\<rparr>"

text \<open>
  Mounting the component: the first render, then the effect \<open>useEffect(loadRecords, [])\<close>,
  which React runs after the first render whatever that render returned. The result is the
  screen of the first render, and the state and the world after the effect.
\<close>

definition mount :: "'h builtins \<Rightarrow> config \<Rightarrow> 'h world \<Rightarrow> screen \<times> 'h app_state \<times> 'h world" where
  "mount env cfg w =
     (let st0 = initial_state env w in (render cfg st0, loadRecords st0 w))"


subsection \<open>The elements of the page and their handlers\<close>

text \<open>
  What a visitor can do is what the rendered page offers: an element that is not rendered
  has no handler to call. The setup screen (App.js, 389-448) and the loading screen
  (450-459) carry no handler at all; the board carries the header buttons, the list or the
  detail view, and the four modals when their flags are set. The two buttons that open the
  file dialog (852, 1014) and the photo viewer (624) touch neither the state nor the store
  and are left out. A completed file conversion calls its \<open>onload\<close> whatever is rendered.
\<close>

datatype form_field =
    Field_author_name | Field_author_password | Field_date | Field_name
  | Field_organization | Field_hours | Field_location | Field_participants
  | Field_description

datatype comment_field = Field_nickname | Field_password | Field_content

fun handleInputChange :: "form_field \<Rightarrow> string \<Rightarrow> 'h app_state \<Rightarrow> 'h app_state" where
  "handleInputChange Field_author_name v st = st\<lparr>formData := (formData st)\<lparr>form_author_name := v\<rparr>\<rparr>"
| "handleInputChange Field_author_password v st =
     st\<lparr>formData := (formData st)\<lparr>form_author_password := v\<rparr>\<rparr>"
| "handleInputChange Field_date v st = st\<lparr>formData := (formData st)\<lparr>form_date := v\<rparr>\<rparr>"
| "handleInputChange Field_name v st = st\<lparr>formData := (formData st)\<lparr>form_name := v\<rparr>\<rparr>"
| "handleInputChange Field_organization v st =
     st\<lparr>formData := (formData st)\<lparr>form_organization := v\<rparr>\<rparr>"
| "handleInputChange Field_hours v st = st\<lparr>formData := (formData st)\<lparr>form_hours := v\<rparr>\<rparr>"
| "handleInputChange Field_location v st = st\<lparr>formData := (formData st)\<lparr>form_location := v\<rparr>\<rparr>"
| "handleInputChange Field_participants v st =
     st\<lparr>formData := (formData st)\<lparr>form_participants := v\<rparr>\<rparr>"
| "handleInputChange Field_description v st =
     st\<lparr>formData := (formData st)\<lparr>form_description := v\<rparr>\<rparr>"

fun handleCommentChange :: "comment_field \<Rightarrow> string \<Rightarrow> 'h app_state \<Rightarrow> 'h app_state" where
  "handleCommentChange Field_nickname v st = st\<lparr>newComment := (newComment st)\<lparr>draft_nickname := v\<rparr>\<rparr>"
| "handleCommentChange Field_password v st = st\<lparr>newComment := (newComment st)\<lparr>draft_password := v\<rparr>\<rparr>"
| "handleCommentChange Field_content v st = st\<lparr>newComment := (newComment st)\<lparr>draft_content := v\<rparr>\<rparr>"

datatype event =
    Back_clicked
  | Register_clicked
  | Sort_changed string
  | Record_clicked nat
  | Edit_clicked
  | Admin_delete_clicked
  | Comment_trash_clicked nat
  | Comment_field_changed comment_field string
  | Comment_submitted
  | Create_closed
  | Form_field_changed form_field string
  | Photos_chosen "string list"
  | Photo_removed nat
  | Create_submitted
  | Edit_closed
  | Edit_password_changed string
  | Edit_submitted
  | Admin_password_changed string
  | Delete_cancelled
  | Delete_confirmed
  | Comment_password_changed string
  | Comment_delete_cancelled
  | Comment_delete_confirmed
  | Reader_loaded nat

text \<open>
  \<open>Record_clicked i\<close> is a click on tile \<open>i\<close> of the sorted list, \<open>Comment_trash_clicked i\<close>
  on the delete button of comment \<open>i\<close> of the selected record, \<open>Photo_removed i\<close> on the
  remove button of staged photo \<open>i\<close>; \<open>Delete_confirmed\<close> and \<open>Comment_delete_confirmed\<close>
  are the delete button or the Enter key of their modal; \<open>Reader_loaded i\<close> is the
  completion of pending conversion \<open>i\<close>.
\<close>

definition detail_rendered :: "'h app_state \<Rightarrow> bool" where
  "detail_rendered st = (currentView st = ''detail'' \<and> selectedRecord st \<noteq> None)"

definition rendered :: "'h builtins \<Rightarrow> config \<Rightarrow> event \<Rightarrow> 'h app_state \<Rightarrow> bool" where
  "rendered env cfg ev st =
     (case ev of
        Reader_loaded i \<Rightarrow> True
      | _ \<Rightarrow>
        render cfg st = Board \<and>
        (case ev of
           Back_clicked \<Rightarrow> currentView st = ''detail''
         | Register_clicked \<Rightarrow> True
         | Sort_changed v \<Rightarrow>
             currentView st = ''main'' \<and> records st \<noteq> [] \<and> (v = ''newest'' \<or> v = ''oldest'')
         | Record_clicked i \<Rightarrow>
             currentView st = ''main'' \<and> records st \<noteq> [] \<and> i < length (sortedRecords env st)
         | Edit_clicked \<Rightarrow> detail_rendered st
         | Admin_delete_clicked \<Rightarrow> detail_rendered st
         | Comment_trash_clicked i \<Rightarrow>
             detail_rendered st
             \<and> (case selectedRecord st of None \<Rightarrow> False | Some r \<Rightarrow> i < length (comments r))
         | Comment_field_changed f v \<Rightarrow> detail_rendered st
         | Comment_submitted \<Rightarrow> detail_rendered st
         | Create_closed \<Rightarrow> showModal st
         | Form_field_changed f v \<Rightarrow>
             showModal st
             \<or> (showEditModal st \<and> f \<noteq> Field_author_name \<and> f \<noteq> Field_author_password)
         | Photos_chosen files \<Rightarrow> showModal st \<or> showEditModal st
         | Photo_removed i \<Rightarrow>
             (showModal st \<or> showEditModal st) \<and> i < length (selectedPhotos st)
         | Create_submitted \<Rightarrow> showModal st
         | Edit_closed \<Rightarrow> showEditModal st
         | Edit_password_changed v \<Rightarrow> showEditModal st
         | Edit_submitted \<Rightarrow> showEditModal st
         | Admin_password_changed v \<Rightarrow> showDeleteModal st
         | Delete_cancelled \<Rightarrow> showDeleteModal st
         | Delete_confirmed \<Rightarrow> showDeleteModal st
         | Comment_password_changed v \<Rightarrow> showCommentDeleteModal st
         | Comment_delete_cancelled \<Rightarrow> showCommentDeleteModal st
         | Comment_delete_confirmed \<Rightarrow> showCommentDeleteModal st
         | Reader_loaded i \<Rightarrow> True))"

fun handle ::
  "'h builtins \<Rightarrow> config \<Rightarrow> event \<Rightarrow> 'h app_state \<Rightarrow> 'h world \<Rightarrow> 'h app_state \<times> 'h world" where
  "handle env cfg Back_clicked st w = (st\<lparr>currentView := ''main''\<rparr>, w)"
| "handle env cfg Register_clicked st w = (st\<lparr>showModal := True\<rparr>, w)"
| "handle env cfg (Sort_changed v) st w = (st\<lparr>sortOrder := v\<rparr>, w)"
| "handle env cfg (Record_clicked i) st w =
     (st\<lparr>selectedRecord := Some (sortedRecords env st ! i), currentView := ''detail''\<rparr>, w)"
| "handle env cfg Edit_clicked st w =
     (case selectedRecord st of None \<Rightarrow> (st, w) | Some r \<Rightarrow> (openEditModal env r st, w))"
| "handle env cfg Admin_delete_clicked st w =
     (case selectedRecord st of None \<Rightarrow> (st, w)
      | Some r \<Rightarrow> (openDeleteModal (row_id r) st, w))"
| "handle env cfg (Comment_trash_clicked i) st w =
     (case selectedRecord st of None \<Rightarrow> (st, w)
      | Some r \<Rightarrow> (openCommentDeleteModal (comments r ! i) st, w))"
| "handle env cfg (Comment_field_changed f v) st w = (handleCommentChange f v st, w)"
| "handle env cfg Comment_submitted st w =
     (case selectedRecord st of None \<Rightarrow> (st, w) | Some r \<Rightarrow> addComment env (row_id r) st w)"
| "handle env cfg Create_closed st w = closeCreateModal env st w"
| "handle env cfg (Form_field_changed f v) st w = (handleInputChange f v st, w)"
| "handle env cfg (Photos_chosen files) st w = handlePhotoUpload files st w"
| "handle env cfg (Photo_removed i) st w = (removePhoto i st, w)"
| "handle env cfg Create_submitted st w = addRecord env st w"
| "handle env cfg Edit_closed st w = closeEditModal env st w"
| "handle env cfg (Edit_password_changed v) st w = (st\<lparr>editPassword := v\<rparr>, w)"
| "handle env cfg Edit_submitted st w = updateRecord env st w"
| "handle env cfg (Admin_password_changed v) st w = (st\<lparr>adminPassword := v\<rparr>, w)"
| "handle env cfg Delete_cancelled st w = (cancelDelete st, w)"
| "handle env cfg Delete_confirmed st w = deleteRecord cfg st w"
| "handle env cfg (Comment_password_changed v) st w = (st\<lparr>commentPassword := v\<rparr>, w)"
| "handle env cfg Comment_delete_cancelled st w = (cancelCommentDelete st, w)"
| "handle env cfg Comment_delete_confirmed st w = deleteComment st w"
| "handle env cfg (Reader_loaded i) st w = reader_onload i st w"

definition dispatch ::
  "'h builtins \<Rightarrow> config \<Rightarrow> event \<Rightarrow> 'h app_state \<times> 'h world \<Rightarrow> 'h app_state \<times> 'h world" where
  "dispatch env cfg ev s =
     (if rendered env cfg ev (fst s) then handle env cfg ev (fst s) (snd s) else s)"

fun run ::
  "'h builtins \<Rightarrow> config \<Rightarrow> event list \<Rightarrow> 'h app_state \<times> 'h world \<Rightarrow> 'h app_state \<times> 'h world" where
  "run env cfg [] s = s"
| "run env cfg (ev # evs) s = run env cfg evs (dispatch env cfg ev s)"

section \<open>Example data\<close>

text \<open>
  A runtime, a configuration and a store with two records and three comments, on which the
  handlers are evaluated. Hours are whole numbers here, the example runtime knows the time
  values of four date strings (in days; two of them name the same day), and its engine
  sorts by insertion whatever the comparator, reading NaN as 0.
\<close>

definition example_builtins :: "nat builtins" where
  "example_builtins =
     \<lparr>parseFloat = (\<lambda>s. case s of [c] \<Rightarrow> of_char c - 48 | _ \<Rightarrow> 0),
      number_toString = (\<lambda>n. [char_of (n + 48)]),
      date_getTime = map_of [(''2024-01-15'', 19737), (''2024-02-01'', 19754),
                             (''2024-03-01'', 19783), (''2024-03-01T00:00:00Z'', 19783)],
      toISODate = (\<lambda>t. ''2024-03-05''),
      toLocaleString_ko = (\<lambda>t. ''2024. 3. 5.''),
      engine_sort = insertion_sort\<rparr>"

definition example_config :: config where
  "example_config =
     \<lparr>SUPABASE_URL = Some ''https://board.example'', SUPABASE_ANON_KEY = Some ''anon'',
      ADMIN_PASSWORD = Some ''admin1''\<rparr>"

definition soup_kitchen :: "nat record_row" where
  "soup_kitchen =
     \<lparr>row_id = 1, created_at = 10, date = ''2024-03-01'', name = ''Soup Kitchen'',
      organization = ''City Shelter'', hours = 3, location = None, participants = None,
      description = None, author_name = ''Ana'', author_password = ''x1'', photos = []\<rparr>"

definition river_cleanup :: "nat record_row" where
  "river_cleanup =
     \<lparr>row_id = 2, created_at = 20, date = ''2024-02-01'', name = ''River Cleanup'',
      organization = ''Green Club'', hours = 2, location = Some ''Riverside'',
      participants = None, description = None, author_name = ''Cy'',
      author_password = ''z3'', photos = [''data:a'']\<rparr>"

definition comment_bo :: comment where
  "comment_bo =
     \<lparr>comment_id = 1, comment_created_at = Some 30, record_id = 1, nickname = ''Bo'',
      password = ''y2'', content = ''Great work'', timestamp = ''2024. 3. 2.''\<rparr>"

definition comment_di :: comment where
  "comment_di =
     \<lparr>comment_id = 2, comment_created_at = Some 40, record_id = 2, nickname = ''Di'',
      password = ''q4'', content = ''Clean river'', timestamp = ''2024. 3. 3.''\<rparr>"

definition comment_ed :: comment where
  "comment_ed =
     \<lparr>comment_id = 3, comment_created_at = Some 50, record_id = 1, nickname = ''Ed'',
      password = ''r5'', content = ''Thanks'', timestamp = ''2024. 3. 4.''\<rparr>"

definition example_world :: "nat world" where
  "example_world =
     \<lparr>tbl_records = [soup_kitchen, river_cleanup],
      tbl_comments = [comment_bo, comment_di, comment_ed],
      next_record_id = 3, next_comment_id = 4, now = 60, outcomes = [], requests = [],
      alerts = [], uncaught = [], pending_reads = []\<rparr>"

definition tree_planting :: "nat record_row" where
  "tree_planting =
     \<lparr>row_id = 3, created_at = 30, date = ''2024-01-15'', name = ''Tree Planting'',
      organization = ''Green Club'', hours = 4, location = None, participants = None,
      description = None, author_name = ''Cy'', author_password = ''z3'', photos = []\<rparr>"

definition example_store :: "nat volunteer_record array_store" where
  "example_store =
     \<lparr>cells = (\<lambda>a. attach_comments [river_cleanup, soup_kitchen, tree_planting] []),
      fresh = 1\<rparr>"

definition nine_files :: "string list" where
  "nine_files = [''data:1'', ''data:2'', ''data:3'', ''data:4'', ''data:5'', ''data:6'',
                 ''data:7'', ''data:8'', ''data:9'']"

definition twelve_files :: "string list" where
  "twelve_files = nine_files @ [''data:10'', ''data:11'', ''data:12'']"

definition soup_kitchen_record :: "nat volunteer_record" where
  "soup_kitchen_record =
     record_row.extend soup_kitchen (volunteer_record.fields [comment_bo, comment_ed])"

text \<open>
  Two records whose date strings differ and name the same day, a record whose date is not
  a date, and the arrays of records that hold them.
\<close>

definition midnight_vigil :: "nat record_row" where
  "midnight_vigil =
     \<lparr>row_id = 4, created_at = 40, date = ''2024-03-01T00:00:00Z'', name = ''Midnight Vigil'',
      organization = ''City Shelter'', hours = 1, location = None, participants = None,
      description = None, author_name = ''Ana'', author_password = ''x1'', photos = []\<rparr>"

definition undated_walk :: "nat record_row" where
  "undated_walk =
     \<lparr>row_id = 5, created_at = 50, date = ''soon'', name = ''Dog Walk'',
      organization = ''Green Club'', hours = 1, location = None, participants = None,
      description = None, author_name = ''Cy'', author_password = ''z3'', photos = []\<rparr>"

definition same_day_store :: "nat volunteer_record array_store" where
  "same_day_store =
     \<lparr>cells = (\<lambda>a. attach_comments [soup_kitchen, midnight_vigil] []), fresh = 1\<rparr>"

definition undated_store :: "nat volunteer_record array_store" where
  "undated_store =
     \<lparr>cells = (\<lambda>a. attach_comments [river_cleanup, undated_walk, soup_kitchen] []),
      fresh = 1\<rparr>"

text \<open>The state after the example store has been loaded.\<close>

definition example_state :: "nat app_state" where
  "example_state = fst (loadRecords (initial_state example_builtins example_world) example_world)"

text \<open>The edit modal opened on the first record, and the delete modal opened on it.\<close>

definition edit_state :: "nat app_state" where
  "edit_state = openEditModal example_builtins soup_kitchen_record example_state"

definition delete_state :: "nat app_state" where
  "delete_state = openDeleteModal 1 example_state"


text \<open>
  A configuration left at its placeholders, one with no variable set, a world in which the
  store cannot be reached, and the drafts of a comment and of a new record.
\<close>

definition placeholder_config :: config where
  "placeholder_config =
     \<lparr>SUPABASE_URL = Some ''YOUR_SUPABASE_URL'',
      SUPABASE_ANON_KEY = Some ''YOUR_SUPABASE_ANON_KEY'', ADMIN_PASSWORD = None\<rparr>"

definition missing_config :: config where
  "missing_config = \<lparr>SUPABASE_URL = None, SUPABASE_ANON_KEY = None, ADMIN_PASSWORD = None\<rparr>"

definition unreachable_world :: "nat world" where
  "unreachable_world = example_world\<lparr>outcomes := [Http_failure]\<rparr>"

definition comment_state :: "nat app_state" where
  "comment_state =
     example_state\<lparr>newComment := \<lparr>draft_nickname = '' Bo '', draft_password = '' y2 '',
                                    draft_content = '' Great work ''\<rparr>\<rparr>"

definition create_state :: "nat app_state" where
  "create_state =
     example_state\<lparr>showModal := True,
       formData := \<lparr>form_date = ''2024-01-15'', form_name = ''Food Bank'',
                     form_organization = ''City Shelter'', form_hours = ''5'',
                     form_location = [], form_participants = ''Ana, Bo'',
                     form_description = [], form_author_name = ''Ana'',
                     form_author_password = ''x1''\<rparr>\<rparr>"

section \<open>Facts about the client and the example\<close>

lemma comments_attach: "comments (record_row.extend r (volunteer_record.fields cs)) = cs"
  by (simp add: record_row.extend_def volunteer_record.fields_def)

lemma row_id_attach: "row_id (record_row.extend r (volunteer_record.fields cs)) = row_id r"
  by (simp add: record_row.extend_def volunteer_record.fields_def)

lemma fetch_no_fault:
  "outcomes w = [] \<Longrightarrow>
   fetch rq w = (case serve rq (w\<lparr>requests := requests w @ [rq]\<rparr>) of
                   None \<Rightarrow> (Inl Http_error, w\<lparr>requests := requests w @ [rq]\<rparr>)
                 | Some (res, w2) \<Rightarrow> (Inr res, w2))"
  by (simp add: fetch_def next_outcome_def split: option.splits)

lemma fetch_Select_comments_rows:
  assumes "fetch Select_comments w = (Inr (Comment_rows cs), w')"
  shows "cs = sort_key comment_created_at (tbl_comments w)"
  using assms
  by (auto simp: fetch_def next_outcome_def Let_def split: list.splits outcome.splits)

lemmas example_rows = soup_kitchen_def river_cleanup_def comment_bo_def
  comment_di_def comment_ed_def

lemma example_select_records:
  "fetch Select_records example_world =
     (Inr (Record_rows [river_cleanup, soup_kitchen]),
      example_world\<lparr>requests := [Select_records]\<rparr>)"
  by (simp add: fetch_def next_outcome_def example_world_def example_rows)

lemma example_select_comments:
  "fetch Select_comments (example_world\<lparr>requests := [Select_records]\<rparr>) =
     (Inr (Comment_rows [comment_bo, comment_di, comment_ed]),
      example_world\<lparr>requests := [Select_records, Select_comments]\<rparr>)"
  by (simp add: fetch_def next_outcome_def example_world_def example_rows)

lemma example_state_records:
  "records example_state =
     attach_comments [river_cleanup, soup_kitchen] [comment_bo, comment_di, comment_ed]"
  by (simp add: example_state_def loadRecords_def example_select_records
        example_select_comments)

subsection \<open>The stable sort\<close>

lemma set_insert_sorted: "set (insert_sorted cmp x ys) = insert x (set ys)"
  by (induction ys) auto

lemma set_insertion_sort: "set (insertion_sort cmp xs) = set xs"
  by (induction xs) (simp_all add: insertion_sort_def set_insert_sorted)

lemma mset_insert_sorted: "mset (insert_sorted cmp x ys) = add_mset x (mset ys)"
  by (induction ys) auto

lemma mset_insertion_sort: "mset (insertion_sort cmp xs) = mset xs"
  by (induction xs) (simp_all add: insertion_sort_def mset_insert_sorted)

lemma insert_sorted_insort_key:
  assumes "\<forall>y \<in> set ys. (comparator_value (cmp x y) \<le> 0) = (k x \<le> k y)"
  shows "insert_sorted cmp x ys = insort_key k x ys"
  using assms by (induction ys) auto

lemma insertion_sort_sort_key:
  assumes "\<forall>x \<in> set xs. \<forall>y \<in> set xs. (comparator_value (cmp x y) \<le> 0) = (k x \<le> k y)"
  shows "insertion_sort cmp xs = sort_key k xs"
  using assms
proof (induction xs)
  case Nil
  show ?case by (simp add: insertion_sort_def)
next
  case (Cons x xs)
  have tail: "insertion_sort cmp xs = sort_key k xs"
    using Cons by simp
  have "insert_sorted cmp x (sort_key k xs) = insort_key k x (sort_key k xs)"
    by (rule insert_sorted_insort_key) (use Cons.prems in simp)
  then show ?case
    using tail by (simp add: insertion_sort_def)
qed

lemma filter_insert_sorted_in:
  assumes "P x" and "\<forall>y \<in> set ys. P y \<longrightarrow> comparator_value (cmp x y) \<le> 0"
  shows "filter P (insert_sorted cmp x ys) = x # filter P ys"
  using assms by (induction ys) auto

lemma filter_insert_sorted_out:
  assumes "\<not> P x"
  shows "filter P (insert_sorted cmp x ys) = filter P ys"
  using assms by (induction ys) auto

lemma insertion_sort_stable:
  assumes "\<forall>x \<in> set xs. \<forall>y \<in> set xs. P x \<and> P y \<longrightarrow> comparator_value (cmp x y) \<le> 0"
  shows "filter P (insertion_sort cmp xs) = filter P xs"
  using assms
proof (induction xs)
  case Nil
  show ?case by (simp add: insertion_sort_def)
next
  case (Cons x xs)
  have tail: "filter P (insertion_sort cmp xs) = filter P xs"
    using Cons by simp
  show ?case
  proof (cases "P x")
    case True
    have "filter P (insert_sorted cmp x (insertion_sort cmp xs)) = x # filter P (insertion_sort cmp xs)"
      using True Cons.prems by (intro filter_insert_sorted_in) (simp_all add: set_insertion_sort)
    then show ?thesis using tail True by (simp add: insertion_sort_def)
  next
    case False
    then show ?thesis
      using tail by (simp add: insertion_sort_def filter_insert_sorted_out)
  qed
qed

lemma compare_same_date:
  "date a = date b \<Longrightarrow> comparator_value (compare_dates env order a b) \<le> 0"
  by (simp add: compare_dates_def comparator_value_def split: option.splits)

lemma sorted_rev_uminus:
  fixes t :: "'a \<Rightarrow> int"
  shows "sorted (map t ys) \<Longrightarrow> sorted (rev (map (\<lambda>r. - t r) ys))"
  by (induction ys) (auto simp: sorted_append)

lemma sort_key_uminus_rev:
  fixes t :: "'a \<Rightarrow> int"
  assumes "distinct (map t xs)"
  shows "sort_key (\<lambda>r. - t r) xs = rev (sort_key t xs)"
proof (rule map_sorted_distinct_set_unique [where f = "\<lambda>r. - t r"])
  show "inj_on (\<lambda>r. - t r) (set (sort_key (\<lambda>r. - t r) xs) \<union> set (rev (sort_key t xs)))"
    using assms by (auto simp: inj_on_def distinct_map)
  show "sorted (map (\<lambda>r. - t r) (sort_key (\<lambda>r. - t r) xs))" by simp
  have d: "distinct xs" using assms by (simp add: distinct_map)
  have inj: "inj_on (\<lambda>r. - t r) (set xs)" using assms by (auto simp: inj_on_def distinct_map)
  show "distinct (map (\<lambda>r. - t r) (sort_key (\<lambda>r. - t r) xs))"
    using d inj by (simp add: distinct_map)
  show "distinct (map (\<lambda>r. - t r) (rev (sort_key t xs)))"
    using d inj by (simp add: distinct_map)
  have "sorted (rev (map (\<lambda>r. - t r) (sort_key t xs)))"
    by (rule sorted_rev_uminus) simp
  then show "sorted (map (\<lambda>r. - t r) (rev (sort_key t xs)))"
    by (simp add: rev_map)
  show "set (sort_key (\<lambda>r. - t r) xs) = set (rev (sort_key t xs))" by simp
qed

lemma compare_dates_valid:
  assumes "date_getTime env (date a) \<noteq> None" and "date_getTime env (date b) \<noteq> None"
  shows "comparator_value (compare_dates env order a b) =
     (if order = ''newest''
      then the (date_getTime env (date b)) - the (date_getTime env (date a))
      else the (date_getTime env (date a)) - the (date_getTime env (date b)))"
  using assms by (auto simp: compare_dates_def comparator_value_def)

lemma insertion_sort_oldest:
  assumes "\<forall>r \<in> set xs. date_getTime env (date r) \<noteq> None"
  shows "insertion_sort (compare_dates env ''oldest'') xs = sort_key (\<lambda>r. the (date_getTime env (date r))) xs"
  by (rule insertion_sort_sort_key) (use assms in \<open>simp add: compare_dates_valid\<close>)

lemma insertion_sort_newest:
  assumes "\<forall>r \<in> set xs. date_getTime env (date r) \<noteq> None"
  shows "insertion_sort (compare_dates env ''newest'') xs = sort_key (\<lambda>r. - the (date_getTime env (date r))) xs"
  by (rule insertion_sort_sort_key) (use assms in \<open>simp add: compare_dates_valid\<close>)

lemma insertion_sort_same_date:
  "filter (\<lambda>r. date r = d) (insertion_sort (compare_dates env order) xs) = filter (\<lambda>r. date r = d) xs"
  by (rule insertion_sort_stable) (simp add: compare_same_date)

lemma compare_dates_consistent:
  assumes "\<forall>r \<in> set xs. date_getTime env (date r) \<noteq> None"
  shows "consistent_comparator (compare_dates env order) xs"
  unfolding consistent_comparator_def
proof (intro ballI)
  fix a b c
  assume "a \<in> set xs" and "b \<in> set xs" and "c \<in> set xs"
  then have va: "date_getTime env (date a) \<noteq> None"
    and vb: "date_getTime env (date b) \<noteq> None"
    and vc: "date_getTime env (date c) \<noteq> None"
    using assms by simp_all
  have nn: "compare_dates env order a b \<noteq> None"
    using va vb by (auto simp: compare_dates_def)
  show "compare_dates env order a b \<noteq> None
      \<and> comparator_value (compare_dates env order a a) = 0
      \<and> (comparator_value (compare_dates env order a b) = 0
           \<longrightarrow> comparator_value (compare_dates env order b a) = 0)
      \<and> (comparator_value (compare_dates env order a b) = 0
             \<and> comparator_value (compare_dates env order b c) = 0
           \<longrightarrow> comparator_value (compare_dates env order a c) = 0)
      \<and> (comparator_value (compare_dates env order a b) < 0
             \<and> comparator_value (compare_dates env order b c) < 0
           \<longrightarrow> comparator_value (compare_dates env order a c) < 0)
      \<and> (comparator_value (compare_dates env order a b) > 0
             \<and> comparator_value (compare_dates env order b c) > 0
           \<longrightarrow> comparator_value (compare_dates env order a c) > 0)"
    using nn by (simp add: compare_dates_valid va vb vc)
qed

lemma compare_dates_inconsistent:
  assumes "r \<in> set xs" and "date_getTime env (date r) = None"
  shows "\<not> consistent_comparator (compare_dates env order) xs"
proof
  assume "consistent_comparator (compare_dates env order) xs"
  then have "compare_dates env order r r \<noteq> None"
    using assms(1) unfolding consistent_comparator_def by blast
  then show False
    using assms(2) by (simp add: compare_dates_def)
qed

lemma array_sort_valid_dates:
  assumes "\<forall>r \<in> set xs. date_getTime env (date r) \<noteq> None"
  shows "array_sort engine (compare_dates env order) xs
     = insertion_sort (compare_dates env order) xs"
  using compare_dates_consistent [OF assms] by (simp add: array_sort_def)

lemma compare_same_time:
  "date_getTime env (date a) = date_getTime env (date b) \<Longrightarrow>
   comparator_value (compare_dates env order a b) \<le> 0"
  by (simp add: compare_dates_def comparator_value_def split: option.splits)

lemma insertion_sort_same_time:
  "filter (\<lambda>r. date_getTime env (date r) = k) (insertion_sort (compare_dates env order) xs)
     = filter (\<lambda>r. date_getTime env (date r) = k) xs"
  by (rule insertion_sort_stable) (simp add: compare_same_time)

lemma getSortedRecords_cells:
  "cells (snd (getSortedRecords env order a h)) (fst (getSortedRecords env order a h))
     = array_sort (engine_sort env) (compare_dates env order) (cells h a)"
  by (simp add: getSortedRecords_def array_spread_def array_sort_in_place_def)

lemma getSortedRecords_frame:
  "a < fresh h \<Longrightarrow> cells (snd (getSortedRecords env order a h)) a = cells h a"
  by (simp add: getSortedRecords_def array_spread_def array_sort_in_place_def)

subsection \<open>Photo conversions\<close>

lemma reader_onload_pending:
  "i < length (pending_reads w) \<Longrightarrow>
   reader_onload i st w =
     (st\<lparr>selectedPhotos := selectedPhotos st @ [pending_reads w ! i]\<rparr>,
      w\<lparr>pending_reads := take i (pending_reads w) @ drop (Suc i) (pending_reads w)\<rparr>)"
  by (simp add: reader_onload_def)

lemma complete_reads_all:
  assumes "completion_order (length (pending_reads w)) js"
  shows "\<exists>ps. mset ps = mset (pending_reads w)
     \<and> complete_reads js st w = (st\<lparr>selectedPhotos := selectedPhotos st @ ps\<rparr>, w\<lparr>pending_reads := []\<rparr>)"
  using assms
proof (induction js arbitrary: st w)
  case Nil
  then have "pending_reads w = []" by simp
  then show ?case by (intro exI [of _ "[]"]) simp
next
  case (Cons i js)
  let ?p = "pending_reads w"
  let ?st1 = "st\<lparr>selectedPhotos := selectedPhotos st @ [?p ! i]\<rparr>"
  let ?w1 = "w\<lparr>pending_reads := take i ?p @ drop (Suc i) ?p\<rparr>"
  from Cons.prems have i: "i < length ?p" and rest: "completion_order (length ?p - 1) js"
    by simp_all
  have len: "length (pending_reads ?w1) = length ?p - 1"
    using i by simp
  obtain ps where ps: "mset ps = mset (pending_reads ?w1)"
    and run: "complete_reads js ?st1 ?w1
      = (?st1\<lparr>selectedPhotos := selectedPhotos ?st1 @ ps\<rparr>, ?w1\<lparr>pending_reads := []\<rparr>)"
    using Cons.IH [of ?w1 ?st1] rest len by (metis (no_types, lifting))
  have split: "?p = take i ?p @ ?p ! i # drop (Suc i) ?p"
    using i by (rule id_take_nth_drop)
  have "mset (?p ! i # ps) = mset (take i ?p @ ?p ! i # drop (Suc i) ?p)"
    using ps by simp
  then have m: "mset (?p ! i # ps) = mset ?p"
    using split by simp
  have "complete_reads (i # js) st w
      = (st\<lparr>selectedPhotos := selectedPhotos st @ (?p ! i # ps)\<rparr>, w\<lparr>pending_reads := []\<rparr>)"
    using run i by (simp add: reader_onload_pending)
  with m show ?case by blast
qed


lemma handlePhotoUpload_within:
  assumes "length (selectedPhotos st) \<le> 10"
  shows "handlePhotoUpload files st w =
     (st, (if 10 - length (selectedPhotos st) < length files
           then alert (Photo_limit (min (length files) (10 - length (selectedPhotos st))))
           else id)
          (w\<lparr>pending_reads := pending_reads w @ take (10 - length (selectedPhotos st)) files\<rparr>))"
proof -
  have k: "nat (10 - int (length (selectedPhotos st))) = 10 - length (selectedPhotos st)"
    by simp
  have nonneg: "\<not> 10 - int (length (selectedPhotos st)) < 0"
    using assms by simp
  have cmp: "(10 - int (length (selectedPhotos st)) < int (length files))
      = (10 - length (selectedPhotos st) < length files)"
    using assms by auto
  show ?thesis
    unfolding handlePhotoUpload_def slice0_def Let_def
    by (simp only: nonneg k cmp if_False length_take id_apply split: if_split) simp
qed

lemma example_state_photos: "selectedPhotos example_state = []"
  by (simp add: example_state_def loadRecords_def example_select_records
        example_select_comments initial_state_def)

subsection \<open>Runs in which every request succeeds\<close>

lemma loadRecords_no_fault:
  assumes "outcomes w = []"
  shows "loadRecords st w =
     (st\<lparr>records := attach_comments (rev (sort_key created_at (tbl_records w)))
                        (sort_key comment_created_at (tbl_comments w)),
         loading := False\<rparr>,
      w\<lparr>requests := requests w @ [Select_records, Select_comments]\<rparr>)"
  using assms by (simp add: loadRecords_def fetch_no_fault)

lemma deleteRecord_no_fault:
  assumes "ADMIN_PASSWORD cfg = Some (adminPassword st)"
    and "deleteTarget st = Some t"
    and "outcomes w = []"
  shows "deleteRecord cfg st w =
     (st\<lparr>records := attach_comments
                        (rev (sort_key created_at (filter (\<lambda>r. row_id r \<noteq> t) (tbl_records w))))
                        (sort_key comment_created_at
                           (filter (\<lambda>c. record_id c \<noteq> t) (tbl_comments w))),
         loading := False, showDeleteModal := False, deleteTarget := None,
         adminPassword := [], currentView := ''main''\<rparr>,
      w\<lparr>tbl_comments := filter (\<lambda>c. record_id c \<noteq> t) (tbl_comments w),
        tbl_records := filter (\<lambda>r. row_id r \<noteq> t) (tbl_records w),
        requests := requests w @ [Delete_comments_of (Some t), Delete_record (Some t),
                                  Select_records, Select_comments],
        alerts := alerts w @ [Record_deleted]\<rparr>)"
  using assms
  by (simp add: deleteRecord_def fetch_no_fault loadRecords_no_fault alert_def)


lemma attach_comments_row_id:
  "r \<in> set (attach_comments rs cs) \<Longrightarrow> \<exists>x \<in> set rs. row_id r = row_id x"
  by (auto simp: attach_comments_def row_id_attach)

lemma attach_comments_comment:
  "r \<in> set (attach_comments rs cs) \<Longrightarrow> c \<in> set (comments r) \<Longrightarrow> c \<in> set cs"
  by (auto simp: attach_comments_def comments_attach)

lemma updateRecord_no_fault:
  assumes "editTarget st = Some target"
    and "editPassword st = author_password target"
    and "form_date (formData st) \<noteq> []" and "form_name (formData st) \<noteq> []"
    and "form_organization (formData st) \<noteq> []" and "form_hours (formData st) \<noteq> []"
    and "outcomes w = []"
  shows "snd (updateRecord env st w) =
      w\<lparr>tbl_records :=
          map (\<lambda>r. if row_id r = row_id target
                 then r\<lparr>date := form_date (formData st), name := form_name (formData st),
                        organization := form_organization (formData st),
                        hours := parseFloat env (form_hours (formData st)),
                        location := or_null (form_location (formData st)),
                        participants := or_null (form_participants (formData st)),
                        description := or_null (form_description (formData st)),
                        photos := selectedPhotos st\<rparr>
                 else r) (tbl_records w),
        requests := requests w @
          [Update_record
             [Set_date (form_date (formData st)), Set_name (form_name (formData st)),
              Set_organization (form_organization (formData st)),
              Set_hours (parseFloat env (form_hours (formData st))),
              Set_location (or_null (form_location (formData st))),
              Set_participants (or_null (form_participants (formData st))),
              Set_description (or_null (form_description (formData st))),
              Set_photos (selectedPhotos st)]
             (row_id target),
           Select_records, Select_comments],
        alerts := alerts w @ [Record_updated]\<rparr>"
  using assms
  by (simp add: updateRecord_def fetch_no_fault loadRecords_no_fault alert_def Let_def
        patch_def)


lemma filter_other_rows:
  assumes "\<And>r. row_id (f r) = row_id r"
  shows "filter (\<lambda>r. row_id r \<noteq> i) (map (\<lambda>r. if row_id r = i then f r else r) rs)
     = filter (\<lambda>r. row_id r \<noteq> i) rs"
  using assms by (induction rs) simp_all

lemma addRecord_no_fault:
  assumes "form_date (formData st) \<noteq> []" and "form_name (formData st) \<noteq> []"
    and "form_organization (formData st) \<noteq> []" and "form_hours (formData st) \<noteq> []"
    and "form_author_name (formData st) \<noteq> []" and "form_author_password (formData st) \<noteq> []"
    and "outcomes w = []"
  shows "tbl_records (snd (addRecord env st w)) = tbl_records w @
      [\<lparr>row_id = next_record_id w, created_at = now w, date = form_date (formData st),
        name = form_name (formData st), organization = form_organization (formData st),
        hours = parseFloat env (form_hours (formData st)),
        location = or_null (form_location (formData st)),
        participants = or_null (form_participants (formData st)),
        description = or_null (form_description (formData st)),
        author_name = form_author_name (formData st),
        author_password = form_author_password (formData st),
        photos = selectedPhotos st\<rparr>]"
  using assms
  by (simp add: addRecord_def fetch_no_fault loadRecords_no_fault alert_def Let_def
        insert_row_def)

lemma addComment_no_fault:
  assumes "trim (draft_nickname (newComment st)) \<noteq> []"
    and "trim (draft_password (newComment st)) \<noteq> []"
    and "trim (draft_content (newComment st)) \<noteq> []"
    and "outcomes w = []"
  shows "snd (addComment env recordId st w) =
     w\<lparr>tbl_comments := tbl_comments w @
          [\<lparr>comment_id = next_comment_id w, comment_created_at = Some (now w),
            record_id = recordId, nickname = trim (draft_nickname (newComment st)),
            password = draft_password (newComment st),
            content = trim (draft_content (newComment st)),
            timestamp = toLocaleString_ko env (now w)\<rparr>],
        next_comment_id := Suc (next_comment_id w),
        requests := requests w @
          [Insert_comment
             \<lparr>new_record_id = recordId, new_nickname = trim (draft_nickname (newComment st)),
              new_password = draft_password (newComment st),
              new_content = trim (draft_content (newComment st)),
              new_timestamp = toLocaleString_ko env (now w)\<rparr>,
           Select_records, Select_comments],
        alerts := alerts w @ [Comment_added]\<rparr>"
  using assms
  by (simp add: addComment_def fetch_no_fault loadRecords_no_fault alert_def Let_def
        insert_comment_row_def split: option.splits)

lemma addComment_rejects:
  assumes "trim (draft_nickname (newComment st)) = []
     \<or> trim (draft_password (newComment st)) = []
     \<or> trim (draft_content (newComment st)) = []"
  shows "addComment env recordId st w = (st, w\<lparr>alerts := alerts w @ [Comment_fields_required]\<rparr>)"
  using assms by (auto simp: addComment_def alert_def Let_def)

lemma updateRecord_target_row:
  assumes "editTarget st = Some target"
    and "editPassword st = author_password target"
    and "form_date (formData st) \<noteq> []" and "form_name (formData st) \<noteq> []"
    and "form_organization (formData st) \<noteq> []" and "form_hours (formData st) \<noteq> []"
    and "outcomes w = []"
    and "r \<in> set (tbl_records (snd (updateRecord env st w)))"
    and "row_id r = row_id target"
  shows "location r = or_null (form_location (formData st))
    \<and> participants r = or_null (form_participants (formData st))
    \<and> description r = or_null (form_description (formData st))"
proof -
  from assms(8) obtain x where x: "x \<in> set (tbl_records w)"
    and r: "r = (if row_id x = row_id target
                 then x\<lparr>date := form_date (formData st), name := form_name (formData st),
                        organization := form_organization (formData st),
                        hours := parseFloat env (form_hours (formData st)),
                        location := or_null (form_location (formData st)),
                        participants := or_null (form_participants (formData st)),
                        description := or_null (form_description (formData st)),
                        photos := selectedPhotos st\<rparr>
                 else x)"
    unfolding updateRecord_no_fault [OF assms(1-7)] by auto
  show ?thesis
  proof (cases "row_id x = row_id target")
    case True
    with r show ?thesis by simp
  next
    case False
    with r assms(9) show ?thesis by simp
  qed
qed

subsection \<open>Trimming\<close>

lemma dropWhile_all: "(\<forall>c \<in> set (dropWhile P s). P c) = (\<forall>c \<in> set s. P c)"
proof
  assume a: "\<forall>c \<in> set (dropWhile P s). P c"
  have "dropWhile P s = []"
  proof (rule ccontr)
    assume "dropWhile P s \<noteq> []"
    then have "\<not> P (hd (dropWhile P s))" and "hd (dropWhile P s) \<in> set (dropWhile P s)"
      by (simp_all add: hd_dropWhile)
    with a show False by blast
  qed
  then show "\<forall>c \<in> set s. P c" by (simp add: dropWhile_eq_Nil_conv)
next
  assume "\<forall>c \<in> set s. P c"
  then show "\<forall>c \<in> set (dropWhile P s). P c" by (auto dest: set_dropWhileD)
qed

lemma trim_empty_iff: "(trim s = []) = (\<forall>c \<in> set s. white_space c)"
  by (simp add: trim_def dropWhile_eq_Nil_conv dropWhile_all)

subsection \<open>Closing a modal\<close>

lemma cancel_paths_clear_credential:
  "form_author_password (formData (fst (closeCreateModal env st w))) = []
   \<and> adminPassword (cancelDelete st) = []
   \<and> commentPassword (cancelCommentDelete st) = []"
  by (simp add: closeCreateModal_def resetForm_def cancelDelete_def cancelCommentDelete_def)

lemma updateRecord_success_clears_editPassword:
  assumes "editTarget st = Some target"
    and "editPassword st = author_password target"
    and "form_date (formData st) \<noteq> []" and "form_name (formData st) \<noteq> []"
    and "form_organization (formData st) \<noteq> []" and "form_hours (formData st) \<noteq> []"
    and "outcomes w = []"
  shows "editPassword (fst (updateRecord env st w)) = []
    \<and> \<not> showEditModal (fst (updateRecord env st w))"
  using assms
  by (simp add: updateRecord_def fetch_no_fault loadRecords_no_fault Let_def resetForm_def)

lemma closeEditModal_editPassword:
  "editPassword (fst (closeEditModal env st w)) = editPassword st"
  by (simp add: closeEditModal_def resetForm_def)

subsection \<open>The example arrays\<close>

lemma example_store_valid:
  "\<forall>r \<in> set (cells example_store a). date_getTime example_builtins (date r) \<noteq> None"
  by (simp add: example_store_def attach_comments_def record_row.extend_def
        volunteer_record.fields_def example_builtins_def tree_planting_def example_rows)

lemma same_day_store_valid:
  "\<forall>r \<in> set (cells same_day_store a). date_getTime example_builtins (date r) \<noteq> None"
  by (simp add: same_day_store_def attach_comments_def record_row.extend_def
        volunteer_record.fields_def example_builtins_def midnight_vigil_def example_rows)

lemma undated_store_invalid:
  "\<not> consistent_comparator (compare_dates example_builtins order) (cells undated_store a)"
  by (rule compare_dates_inconsistent
        [of "record_row.extend undated_walk (volunteer_record.fields [])"])
     (simp_all add: undated_store_def attach_comments_def example_builtins_def
        undated_walk_def record_row.extend_def volunteer_record.fields_def)

subsection \<open>Requests of the load and of the setup state\<close>

lemma serve_keeps_requests:
  "serve rq w = Some (res, w2) \<Longrightarrow> requests w2 = requests w"
  by (induction rq w rule: serve.induct) auto

lemma serve_select_keeps_tables:
  "serve Select_records w = Some (res, w2) \<Longrightarrow>
     tbl_records w2 = tbl_records w \<and> tbl_comments w2 = tbl_comments w"
  "serve Select_comments w = Some (res, w2) \<Longrightarrow>
     tbl_records w2 = tbl_records w \<and> tbl_comments w2 = tbl_comments w"
  by auto

lemma fetch_requests: "requests (snd (fetch rq w)) = requests w @ [rq]"
  by (auto simp: fetch_def next_outcome_def Let_def dest!: serve_keeps_requests
        split: list.splits outcome.splits option.splits)

lemma fetch_select_tables:
  "rq = Select_records \<or> rq = Select_comments \<Longrightarrow>
   tbl_records (snd (fetch rq w)) = tbl_records w \<and> tbl_comments (snd (fetch rq w)) = tbl_comments w"
  by (auto simp: fetch_def next_outcome_def Let_def split: list.splits outcome.splits)

lemma loadRecords_requests:
  "requests (snd (loadRecords st w)) = requests w @ [Select_records]
   \<or> requests (snd (loadRecords st w)) = requests w @ [Select_records, Select_comments]"
proof -
  obtain r1 w1 where f1: "fetch Select_records w = (r1, w1)" by (cases "fetch Select_records w")
  obtain r2 w2 where f2: "fetch Select_comments w1 = (r2, w2)" by (cases "fetch Select_comments w1")
  have q1: "requests w1 = requests w @ [Select_records]"
    using fetch_requests [of Select_records w] f1 by simp
  have q2: "requests w2 = requests w @ [Select_records, Select_comments]"
    using fetch_requests [of Select_comments w1] f2 q1 by simp
  show ?thesis
    using q1 q2
    by (auto simp: loadRecords_def f1 f2 alert_def split: sum.splits response.splits)
qed

lemma loadRecords_tables:
  "tbl_records (snd (loadRecords st w)) = tbl_records w
   \<and> tbl_comments (snd (loadRecords st w)) = tbl_comments w"
proof -
  obtain r1 w1 where f1: "fetch Select_records w = (r1, w1)" by (cases "fetch Select_records w")
  obtain r2 w2 where f2: "fetch Select_comments w1 = (r2, w2)" by (cases "fetch Select_comments w1")
  have t1: "tbl_records w1 = tbl_records w \<and> tbl_comments w1 = tbl_comments w"
    using fetch_select_tables [of Select_records w] f1 by simp
  have t2: "tbl_records w2 = tbl_records w \<and> tbl_comments w2 = tbl_comments w"
    using fetch_select_tables [of Select_comments w1] f2 t1 by simp
  show ?thesis
    using t1 t2
    by (auto simp: loadRecords_def f1 f2 alert_def split: sum.splits response.splits)
qed

lemma rendered_setup:
  assumes "render cfg st = Setup_required"
  shows "rendered env cfg ev st = (\<exists>i. ev = Reader_loaded i)"
  using assms by (cases ev) (simp_all add: rendered_def)

lemma dispatch_setup:
  assumes "SUPABASE_URL cfg = Some ''YOUR_SUPABASE_URL''
     \<or> SUPABASE_ANON_KEY cfg = Some ''YOUR_SUPABASE_ANON_KEY''"
  shows "requests (snd (dispatch env cfg ev s)) = requests (snd s)
    \<and> tbl_records (snd (dispatch env cfg ev s)) = tbl_records (snd s)
    \<and> tbl_comments (snd (dispatch env cfg ev s)) = tbl_comments (snd s)"
proof -
  have "render cfg (fst s) = Setup_required"
    using assms by (auto simp: render_def)
  then show ?thesis
    by (auto simp: dispatch_def rendered_setup reader_onload_def)
qed

lemma run_setup:
  assumes "SUPABASE_URL cfg = Some ''YOUR_SUPABASE_URL''
     \<or> SUPABASE_ANON_KEY cfg = Some ''YOUR_SUPABASE_ANON_KEY''"
  shows "requests (snd (run env cfg evs s)) = requests (snd s)
    \<and> tbl_records (snd (run env cfg evs s)) = tbl_records (snd s)
    \<and> tbl_comments (snd (run env cfg evs s)) = tbl_comments (snd s)"
proof (induction evs arbitrary: s)
  case Nil
  show ?case by simp
next
  case (Cons ev evs)
  show ?case
    using Cons.IH [of "dispatch env cfg ev s"] dispatch_setup [OF assms, of env ev s]
    by simp
qed

lemma placeholder_mount:
  "snd (mount example_builtins placeholder_config unreachable_world)
     = ((initial_state example_builtins unreachable_world)\<lparr>loading := False\<rparr>,
        example_world\<lparr>requests := [Select_records], alerts := [Load_failed]\<rparr>)"
  by (simp add: mount_def loadRecords_def fetch_def next_outcome_def unreachable_world_def
        example_world_def alert_def initial_state_def)

subsection \<open>A run on the board\<close>

lemma example_mount:
  "snd (mount example_builtins example_config example_world)
     = (example_state, example_world\<lparr>requests := [Select_records, Select_comments]\<rparr>)"
  by (simp add: mount_def Let_def example_state_def loadRecords_def example_select_records
        example_select_comments)

lemma example_sortedRecords:
  "map row_id (sortedRecords example_builtins example_state) = [1, 2]"
proof -
  have valid: "\<forall>r \<in> set (records example_state).
      date_getTime example_builtins (date r) \<noteq> None"
    by (simp add: example_state_records attach_comments_def record_row.extend_def
          volunteer_record.fields_def example_builtins_def example_rows)
  have order: "sortOrder example_state = ''newest''"
    by (simp add: example_state_def loadRecords_def example_select_records
          example_select_comments initial_state_def)
  have "sortedRecords example_builtins example_state
      = insertion_sort (compare_dates example_builtins ''newest'') (records example_state)"
    by (simp add: sortedRecords_def getSortedRecords_def array_spread_def
          array_sort_in_place_def order array_sort_valid_dates [OF valid])
  then show ?thesis
    by (simp add: example_state_records insertion_sort_def compare_dates_def
          comparator_value_def attach_comments_def record_row.extend_def
          volunteer_record.fields_def example_builtins_def example_rows)
qed


lemma example_state_eval:
  "example_state = (initial_state example_builtins example_world)
     \<lparr>records := attach_comments [river_cleanup, soup_kitchen]
                    [comment_bo, comment_di, comment_ed],
      loading := False\<rparr>"
  by (simp add: example_state_def loadRecords_def example_select_records
        example_select_comments)

lemma example_state_flags:
  "loading example_state = False" "showModal example_state = False"
  "showEditModal example_state = False"
  "SUPABASE_URL example_config = Some ''https://board.example''"
  "SUPABASE_ANON_KEY example_config = Some ''anon''"
  by (simp_all add: example_state_eval example_config_def initial_state_def)

lemma render_example_config: "render example_config st = (if loading st then Loading_screen else Board)"
  by (simp add: render_def example_config_def)

lemma example_run_fills_form:
  "run example_builtins example_config
      [Register_clicked, Form_field_changed Field_author_name ''Ana'',
       Form_field_changed Field_author_password ''x1'',
       Form_field_changed Field_name ''Food Bank'',
       Form_field_changed Field_organization ''City Shelter'',
       Form_field_changed Field_hours ''5'']
      (example_state, w)
   = (example_state\<lparr>showModal := True,
        formData := (formData example_state)\<lparr>form_author_name := ''Ana'',
          form_author_password := ''x1'', form_name := ''Food Bank'',
          form_organization := ''City Shelter'', form_hours := ''5''\<rparr>\<rparr>, w)"
  by (simp add: dispatch_def rendered_def render_example_config example_state_flags)


lemma run_append: "run env cfg (evs @ evs') s = run env cfg evs' (run env cfg evs s)"
  by (induction evs arbitrary: s) simp_all

lemma addRecord_requests_no_fault:
  assumes "form_date (formData st) \<noteq> []" and "form_name (formData st) \<noteq> []"
    and "form_organization (formData st) \<noteq> []" and "form_hours (formData st) \<noteq> []"
    and "form_author_name (formData st) \<noteq> []" and "form_author_password (formData st) \<noteq> []"
    and "outcomes w = []"
  shows "requests (snd (addRecord env st w)) = requests w @
      [Insert_record
         \<lparr>new_date = form_date (formData st), new_name = form_name (formData st),
          new_organization = form_organization (formData st),
          new_hours = parseFloat env (form_hours (formData st)),
          new_location = or_null (form_location (formData st)),
          new_participants = or_null (form_participants (formData st)),
          new_description = or_null (form_description (formData st)),
          new_author_name = form_author_name (formData st),
          new_author_password = form_author_password (formData st),
          new_photos = selectedPhotos st\<rparr>,
       Select_records, Select_comments]"
  using assms
  by (simp add: addRecord_def fetch_no_fault loadRecords_no_fault alert_def Let_def)

lemma example_run_inserts:
  "requests (snd (run example_builtins example_config
      ([Register_clicked, Form_field_changed Field_author_name ''Ana'',
        Form_field_changed Field_author_password ''x1'',
        Form_field_changed Field_name ''Food Bank'',
        Form_field_changed Field_organization ''City Shelter'',
        Form_field_changed Field_hours ''5''] @ [Create_submitted])
      (snd (mount example_builtins example_config example_world))))
   = [Select_records, Select_comments,
      Insert_record
        \<lparr>new_date = ''2024-03-05'', new_name = ''Food Bank'',
         new_organization = ''City Shelter'', new_hours = 5, new_location = None,
         new_participants = None, new_description = None, new_author_name = ''Ana'',
         new_author_password = ''x1'', new_photos = []\<rparr>,
      Select_records, Select_comments]"
proof -
  let ?filled = "example_state\<lparr>showModal := True,
        formData := (formData example_state)\<lparr>form_author_name := ''Ana'',
          form_author_password := ''x1'', form_name := ''Food Bank'',
          form_organization := ''City Shelter'', form_hours := ''5''\<rparr>\<rparr>"
  let ?w = "example_world\<lparr>requests := [Select_records, Select_comments]\<rparr>"
  have form: "formData example_state =
      \<lparr>form_date = ''2024-03-05'', form_name = [], form_organization = [],
       form_hours = [], form_location = [], form_participants = [],
       form_description = [], form_author_name = [], form_author_password = []\<rparr>"
    and photos: "selectedPhotos example_state = []"
    by (simp_all add: example_state_eval initial_state_def example_builtins_def)
  have sent: "requests (snd (addRecord example_builtins ?filled ?w)) =
      [Select_records, Select_comments,
       Insert_record
        \<lparr>new_date = ''2024-03-05'', new_name = ''Food Bank'',
         new_organization = ''City Shelter'', new_hours = 5, new_location = None,
         new_participants = None, new_description = None, new_author_name = ''Ana'',
         new_author_password = ''x1'', new_photos = []\<rparr>,
       Select_records, Select_comments]"
    by (subst addRecord_requests_no_fault)
       (simp_all add: form photos or_null_def example_builtins_def example_world_def)
  have "run example_builtins example_config [Create_submitted] (?filled, ?w)
      = addRecord example_builtins ?filled ?w"
    by (simp add: dispatch_def rendered_def render_example_config example_state_flags)
  then show ?thesis
    using sent by (simp only: run_append example_mount example_run_fills_form)
qed

section \<open>The join of records and comments\<close>

text \<open>
  Claim C3. When both selects of \<open>loadRecords\<close> succeed, the records of the state are the
  fetched records in the fetched order, and every one of them carries exactly the fetched
  comments whose \<open>record_id\<close> is its identifier, in the order of the fetched collection,
  which is ascending in creation time.
\<close>

theorem loadRecords_attaches_comments:
  assumes "fetch Select_records w = (Inr (Record_rows recordsData), w1)"
    and "fetch Select_comments w1 = (Inr (Comment_rows commentsData), w2)"
  shows "map record_row.truncate (records (fst (loadRecords st w))) = recordsData
    \<and> (\<forall>r \<in> set (records (fst (loadRecords st w))).
          comments r = filter (\<lambda>c. record_id c = row_id r) commentsData
        \<and> set (comments r) = {c \<in> set commentsData. record_id c = row_id r}
        \<and> sorted (map comment_created_at (comments r)))"
proof -
  have recs: "records (fst (loadRecords st w)) = attach_comments recordsData commentsData"
    using assms by (simp add: loadRecords_def)
  have srt: "sorted (map comment_created_at commentsData)"
    using fetch_Select_comments_rows [OF assms(2)] by simp
  have trunc: "map record_row.truncate (attach_comments recordsData commentsData) = recordsData"
    by (induction recordsData)
       (simp_all add: attach_comments_def record_row.truncate_def record_row.extend_def)
  have each: "comments r = filter (\<lambda>c. record_id c = row_id r) commentsData"
    if "r \<in> set (attach_comments recordsData commentsData)" for r
    using that by (auto simp: attach_comments_def comments_attach row_id_attach)
  show ?thesis
    unfolding recs using trunc each sorted_filter [OF srt] by auto
qed

theorem loadRecords_attaches_comments_witness:
  "map (\<lambda>r. (row_id r, map comment_id (comments r)))
     (records (fst (loadRecords (initial_state example_builtins example_world) example_world)))
   = [(2, [2]), (1, [1, 3])]"
  using loadRecords_attaches_comments [OF example_select_records example_select_comments,
      of "initial_state example_builtins example_world"]
    example_state_records
  by (simp add: example_state_def attach_comments_def record_row.extend_def
        volunteer_record.fields_def example_rows)


section \<open>The sorted view\<close>

text \<open>
  Claim C6, as amended. \<open>getSortedRecords\<close> sorts a copy, so for every collection and
  both directions the array held by the state is left as it was. For every collection
  whose dates are all valid dates: when the dates are distinct points in time, the result
  for \<open>newest\<close> is the reverse of the result for \<open>oldest\<close>; and in both directions the
  records of one point in time, so also the records of one date string, keep their order,
  and the result is a rearrangement of the records.
\<close>

theorem getSortedRecords_valid_dates:
  assumes "recordsRef < fresh h"
  shows "(\<forall>order. cells (snd (getSortedRecords env order recordsRef h)) recordsRef
            = cells h recordsRef)
    \<and> ((\<forall>r \<in> set (cells h recordsRef). date_getTime env (date r) \<noteq> None) \<longrightarrow>
         (distinct (map (\<lambda>r. date_getTime env (date r)) (cells h recordsRef))
          \<longrightarrow> cells (snd (getSortedRecords env ''newest'' recordsRef h))
                  (fst (getSortedRecords env ''newest'' recordsRef h))
              = rev (cells (snd (getSortedRecords env ''oldest'' recordsRef h))
                       (fst (getSortedRecords env ''oldest'' recordsRef h))))
       \<and> (\<forall>order k.
            filter (\<lambda>r. date_getTime env (date r) = k)
              (cells (snd (getSortedRecords env order recordsRef h))
                 (fst (getSortedRecords env order recordsRef h)))
            = filter (\<lambda>r. date_getTime env (date r) = k) (cells h recordsRef))
       \<and> (\<forall>order d.
            filter (\<lambda>r. date r = d)
              (cells (snd (getSortedRecords env order recordsRef h))
                 (fst (getSortedRecords env order recordsRef h)))
            = filter (\<lambda>r. date r = d) (cells h recordsRef))
       \<and> (\<forall>order.
            mset (cells (snd (getSortedRecords env order recordsRef h))
                    (fst (getSortedRecords env order recordsRef h)))
            = mset (cells h recordsRef)))"
proof -
  let ?xs = "cells h recordsRef"
  let ?t = "\<lambda>r. the (date_getTime env (date r))"
  have frame: "\<forall>order. cells (snd (getSortedRecords env order recordsRef h)) recordsRef = ?xs"
    using assms by (simp add: getSortedRecords_frame)
  have sorted_cells: "cells (snd (getSortedRecords env order recordsRef h))
        (fst (getSortedRecords env order recordsRef h))
      = insertion_sort (compare_dates env order) ?xs"
    if "\<forall>r \<in> set ?xs. date_getTime env (date r) \<noteq> None" for order
    using that by (simp add: getSortedRecords_cells array_sort_valid_dates)
  have rev_part: "insertion_sort (compare_dates env ''newest'') ?xs
      = rev (insertion_sort (compare_dates env ''oldest'') ?xs)"
    if valid: "\<forall>r \<in> set ?xs. date_getTime env (date r) \<noteq> None"
      and dist: "distinct (map (\<lambda>r. date_getTime env (date r)) ?xs)"
  proof -
    have "inj_on the (set (map (\<lambda>r. date_getTime env (date r)) ?xs))"
    proof (rule inj_onI)
      fix u v :: "int option"
      assume u: "u \<in> set (map (\<lambda>r. date_getTime env (date r)) ?xs)"
        and v: "v \<in> set (map (\<lambda>r. date_getTime env (date r)) ?xs)"
        and eq: "the u = the v"
      have "u \<noteq> None" and "v \<noteq> None"
        using u v valid by auto
      then show "u = v"
        using eq by auto
    qed
    then have "distinct (map the (map (\<lambda>r. date_getTime env (date r)) ?xs))"
      using dist by (simp only: distinct_map)
    then have "distinct (map ?t ?xs)" by (simp add: comp_def)
    then have "sort_key (\<lambda>r. - ?t r) ?xs = rev (sort_key ?t ?xs)"
      by (rule sort_key_uminus_rev)
    then show ?thesis
      using valid by (simp add: insertion_sort_oldest insertion_sort_newest)
  qed
  have ordered: "(distinct (map (\<lambda>r. date_getTime env (date r)) ?xs)
          \<longrightarrow> cells (snd (getSortedRecords env ''newest'' recordsRef h))
                  (fst (getSortedRecords env ''newest'' recordsRef h))
              = rev (cells (snd (getSortedRecords env ''oldest'' recordsRef h))
                       (fst (getSortedRecords env ''oldest'' recordsRef h))))
       \<and> (\<forall>order k.
            filter (\<lambda>r. date_getTime env (date r) = k)
              (cells (snd (getSortedRecords env order recordsRef h))
                 (fst (getSortedRecords env order recordsRef h)))
            = filter (\<lambda>r. date_getTime env (date r) = k) ?xs)
       \<and> (\<forall>order d.
            filter (\<lambda>r. date r = d)
              (cells (snd (getSortedRecords env order recordsRef h))
                 (fst (getSortedRecords env order recordsRef h)))
            = filter (\<lambda>r. date r = d) ?xs)
       \<and> (\<forall>order.
            mset (cells (snd (getSortedRecords env order recordsRef h))
                    (fst (getSortedRecords env order recordsRef h)))
            = mset ?xs)"
    if valid: "\<forall>r \<in> set ?xs. date_getTime env (date r) \<noteq> None"
    using rev_part [OF valid]
    by (simp add: sorted_cells [OF valid] insertion_sort_same_time insertion_sort_same_date
          mset_insertion_sort)
  from frame ordered show ?thesis by blast
qed

theorem getSortedRecords_valid_dates_witness:
  "cells (snd (getSortedRecords example_builtins ''newest'' 0 example_store))
       (fst (getSortedRecords example_builtins ''newest'' 0 example_store))
     = rev (cells (snd (getSortedRecords example_builtins ''oldest'' 0 example_store))
              (fst (getSortedRecords example_builtins ''oldest'' 0 example_store)))
   \<and> map row_id (cells (snd (getSortedRecords example_builtins ''newest'' 0 example_store))
          (fst (getSortedRecords example_builtins ''newest'' 0 example_store))) = [1, 2, 3]
   \<and> map row_id (cells (snd (getSortedRecords example_builtins ''oldest'' 0 example_store))
          (fst (getSortedRecords example_builtins ''oldest'' 0 example_store))) = [3, 2, 1]
   \<and> map row_id (cells (snd (getSortedRecords example_builtins ''newest'' 0 example_store)) 0)
       = [2, 1, 3]"
proof -
  have alloc: "0 < fresh example_store"
    by (simp add: example_store_def)
  have dist: "distinct (map (\<lambda>r. date_getTime example_builtins (date r))
      (cells example_store 0))"
    by (simp add: example_store_def attach_comments_def record_row.extend_def
          volunteer_record.fields_def example_builtins_def tree_planting_def example_rows)
  note facts = getSortedRecords_valid_dates [OF alloc, of example_builtins]
  have frame: "cells (snd (getSortedRecords example_builtins ''newest'' 0 example_store)) 0
      = cells example_store 0"
    using facts by blast
  have reversed: "cells (snd (getSortedRecords example_builtins ''newest'' 0 example_store))
       (fst (getSortedRecords example_builtins ''newest'' 0 example_store))
     = rev (cells (snd (getSortedRecords example_builtins ''oldest'' 0 example_store))
              (fst (getSortedRecords example_builtins ''oldest'' 0 example_store)))"
    using facts example_store_valid [of 0] dist by blast
  have n: "map row_id (insertion_sort (compare_dates example_builtins ''newest'')
             (cells example_store 0)) = [1, 2, 3]"
    and o: "map row_id (insertion_sort (compare_dates example_builtins ''oldest'')
             (cells example_store 0)) = [3, 2, 1]"
    and r: "map row_id (cells example_store 0) = [2, 1, 3]"
    by (simp_all add: insertion_sort_def compare_dates_def comparator_value_def
          example_builtins_def example_store_def attach_comments_def record_row.extend_def
          volunteer_record.fields_def tree_planting_def example_rows)
  have listed: "map row_id (cells (snd (getSortedRecords example_builtins ''newest'' 0 example_store))
          (fst (getSortedRecords example_builtins ''newest'' 0 example_store))) = [1, 2, 3]
   \<and> map row_id (cells (snd (getSortedRecords example_builtins ''oldest'' 0 example_store))
          (fst (getSortedRecords example_builtins ''oldest'' 0 example_store))) = [3, 2, 1]
   \<and> map row_id (cells (snd (getSortedRecords example_builtins ''newest'' 0 example_store)) 0)
       = [2, 1, 3]"
    using n o r
    by (simp add: frame getSortedRecords_cells array_sort_valid_dates [OF example_store_valid])
  from reversed listed show ?thesis by blast
qed

text \<open>
  The claim as stated fails on collections whose date strings are distinct. Two records
  dated \<open>2024-03-01\<close> and \<open>2024-03-01T00:00:00Z\<close> are the same point in time: the
  comparator is 0 on them, the stable sort keeps their order in both directions, and the
  two results are equal, not reversed. And with a date that is not a date the comparator
  returns NaN: the order is the engine's, and under an engine that reads NaN as 0 both
  directions return the records in their given order.
\<close>

theorem getSortedRecords_counterexample:
  "distinct (map date (cells same_day_store 0))
   \<and> map row_id (cells (snd (getSortedRecords example_builtins ''newest'' 0 same_day_store))
          (fst (getSortedRecords example_builtins ''newest'' 0 same_day_store))) = [1, 4]
   \<and> map row_id (rev (cells (snd (getSortedRecords example_builtins ''oldest'' 0 same_day_store))
          (fst (getSortedRecords example_builtins ''oldest'' 0 same_day_store)))) = [4, 1]
   \<and> distinct (map date (cells undated_store 0))
   \<and> map row_id (cells (snd (getSortedRecords example_builtins ''newest'' 0 undated_store))
          (fst (getSortedRecords example_builtins ''newest'' 0 undated_store))) = [2, 5, 1]
   \<and> map row_id (rev (cells (snd (getSortedRecords example_builtins ''oldest'' 0 undated_store))
          (fst (getSortedRecords example_builtins ''oldest'' 0 undated_store)))) = [1, 5, 2]"
proof -
  have a: "distinct (map date (cells same_day_store 0))"
    and d: "distinct (map date (cells undated_store 0))"
    by (simp_all add: same_day_store_def undated_store_def attach_comments_def
          record_row.extend_def volunteer_record.fields_def midnight_vigil_def
          undated_walk_def example_rows)
  have b: "map row_id (insertion_sort (compare_dates example_builtins ''newest'')
             (cells same_day_store 0)) = [1, 4]"
    and c: "map row_id (rev (insertion_sort (compare_dates example_builtins ''oldest'')
             (cells same_day_store 0))) = [4, 1]"
    by (simp_all add: insertion_sort_def compare_dates_def comparator_value_def
          example_builtins_def same_day_store_def attach_comments_def record_row.extend_def
          volunteer_record.fields_def midnight_vigil_def example_rows)
  have e: "map row_id (insertion_sort (compare_dates example_builtins ''newest'')
             (cells undated_store 0)) = [2, 5, 1]"
    and f: "map row_id (rev (insertion_sort (compare_dates example_builtins ''oldest'')
             (cells undated_store 0))) = [1, 5, 2]"
    by (simp_all add: insertion_sort_def compare_dates_def comparator_value_def
          example_builtins_def undated_store_def attach_comments_def record_row.extend_def
          volunteer_record.fields_def undated_walk_def example_rows)
  have eng: "engine_sort example_builtins = insertion_sort"
    by (simp add: example_builtins_def)
  show ?thesis
    using a b c d e f
    by (simp add: getSortedRecords_cells array_sort_valid_dates [OF same_day_store_valid]
          array_sort_def undated_store_invalid eng)
qed

section \<open>Photo staging\<close>

text \<open>
  Claim C7, as amended. A batch of \<open>n\<close> files is handled while the staged list holds at
  most ten photos and no earlier conversion is pending; \<open>k\<close> is ten minus the number of
  staged photos. Then the conversions of the first \<open>min n k\<close> files are started and no
  other; a report is shown only when \<open>n > k\<close>, and it states \<open>min n k\<close>; and when the
  conversions have completed, in any order, the staged list is the old list followed by
  a rearrangement of those files, so it has at most ten entries.
\<close>

theorem handlePhotoUpload_fills_capacity:
  assumes "length (selectedPhotos st) \<le> 10"
    and "pending_reads w = []"
    and "completion_order (min (length files) (10 - length (selectedPhotos st))) js"
  shows "fst (handlePhotoUpload files st w) = st
    \<and> pending_reads (snd (handlePhotoUpload files st w))
        = take (10 - length (selectedPhotos st)) files
    \<and> length (pending_reads (snd (handlePhotoUpload files st w)))
        = min (length files) (10 - length (selectedPhotos st))
    \<and> alerts (snd (handlePhotoUpload files st w))
        = alerts w @ (if 10 - length (selectedPhotos st) < length files
                      then [Photo_limit (min (length files) (10 - length (selectedPhotos st)))]
                      else [])
    \<and> (\<exists>ps. mset ps = mset (take (10 - length (selectedPhotos st)) files)
          \<and> selectedPhotos (fst (complete_reads js st (snd (handlePhotoUpload files st w))))
              = selectedPhotos st @ ps)
    \<and> length (selectedPhotos (fst (complete_reads js st (snd (handlePhotoUpload files st w)))))
        = length (selectedPhotos st) + min (length files) (10 - length (selectedPhotos st))
    \<and> length (selectedPhotos (fst (complete_reads js st (snd (handlePhotoUpload files st w)))))
        \<le> 10
    \<and> pending_reads (snd (complete_reads js st (snd (handlePhotoUpload files st w)))) = []"
proof -
  let ?k = "10 - length (selectedPhotos st)"
  let ?w1 = "snd (handlePhotoUpload files st w)"
  have up: "fst (handlePhotoUpload files st w) = st"
    and pend: "pending_reads ?w1 = take ?k files"
    and al: "alerts ?w1 = alerts w @ (if ?k < length files
                      then [Photo_limit (min (length files) ?k)] else [])"
    using assms(2) by (simp_all add: handlePhotoUpload_within [OF assms(1)] alert_def)
  have len: "length (pending_reads ?w1) = min (length files) ?k"
    using pend by simp
  obtain ps where ps: "mset ps = mset (pending_reads ?w1)"
    and run: "complete_reads js st ?w1
       = (st\<lparr>selectedPhotos := selectedPhotos st @ ps\<rparr>, ?w1\<lparr>pending_reads := []\<rparr>)"
    using complete_reads_all [of ?w1 js st] assms(3) len by auto
  have lps: "length ps = min (length files) ?k"
    using ps len by (metis size_mset)
  have sel: "selectedPhotos (fst (complete_reads js st ?w1)) = selectedPhotos st @ ps"
    and fin: "pending_reads (snd (complete_reads js st ?w1)) = []"
    using run by simp_all
  have ex: "\<exists>ps. mset ps = mset (take ?k files)
      \<and> selectedPhotos (fst (complete_reads js st ?w1)) = selectedPhotos st @ ps"
    using ps pend sel by auto
  have total: "length (selectedPhotos (fst (complete_reads js st ?w1)))
      = length (selectedPhotos st) + min (length files) ?k"
    using sel lps by simp
  have bound: "length (selectedPhotos (fst (complete_reads js st ?w1))) \<le> 10"
    using total assms(1) by simp
  show ?thesis
    using up pend len al ex total bound fin by blast
qed

theorem handlePhotoUpload_fills_capacity_witness:
  "alerts (snd (handlePhotoUpload twelve_files (example_state\<lparr>selectedPhotos := [''data:a'']\<rparr>)
       example_world)) = [Photo_limit 9]
   \<and> length (selectedPhotos (fst (complete_reads [8, 0, 6, 2, 4, 3, 0, 1, 0]
        (example_state\<lparr>selectedPhotos := [''data:a'']\<rparr>)
        (snd (handlePhotoUpload twelve_files (example_state\<lparr>selectedPhotos := [''data:a'']\<rparr>)
           example_world))))) = 10"
  using handlePhotoUpload_fills_capacity [of "example_state\<lparr>selectedPhotos := [''data:a'']\<rparr>"
      example_world twelve_files "[8, 0, 6, 2, 4, 3, 0, 1, 0]"]
  by (simp add: twelve_files_def nine_files_def example_world_def)

text \<open>
  The claim as stated fails twice. Three files with ten free slots are accepted and no
  report is shown. And two batches of nine files, the second chosen before a conversion
  of the first has completed, are both accepted whole: the staged list ends with 18.
\<close>

theorem handlePhotoUpload_counterexample:
  "alerts (snd (handlePhotoUpload [''data:1'', ''data:2'', ''data:3''] example_state example_world)) = []
   \<and> length (selectedPhotos (fst (complete_reads (replicate 18 0) example_state
        (snd (handlePhotoUpload nine_files example_state
           (snd (handlePhotoUpload nine_files example_state example_world))))))) = 18"
proof -
  have a: "alerts (snd (handlePhotoUpload [''data:1'', ''data:2'', ''data:3''] example_state example_world)) = []"
    by (simp add: handlePhotoUpload_def slice0_def example_state_photos example_world_def)
  have b: "pending_reads (snd (handlePhotoUpload nine_files example_state
           (snd (handlePhotoUpload nine_files example_state example_world)))) = nine_files @ nine_files"
    by (simp add: handlePhotoUpload_def slice0_def example_state_photos example_world_def nine_files_def)
  have c: "length (selectedPhotos (fst (complete_reads (replicate 18 0) st w))) = length (selectedPhotos st) + 18"
    if "length (pending_reads w) = 18" for st :: "nat app_state" and w
    using complete_reads_all [of w "replicate 18 0" st] that
    by (auto simp: numeral_eq_Suc dest: arg_cong [where f = size])
  have len: "length (pending_reads (snd (handlePhotoUpload nine_files example_state
           (snd (handlePhotoUpload nine_files example_state example_world))))) = 18"
    unfolding b by (simp add: nine_files_def)
  show ?thesis
    using a c [OF len, of example_state] by (simp add: example_state_photos)
qed


section \<open>Admin delete\<close>

text \<open>
  Claim C4. With the admin password entered and every request succeeding, \<open>deleteRecord\<close>
  sends the delete of the comments of the target before the delete of the record, then
  reloads: the store then holds no comment whose \<open>record_id\<close> is the target and no record
  with the target's identifier, all other rows are kept, and the reloaded state holds
  neither the record nor, under any record, a comment of the target.
\<close>

theorem deleteRecord_cascade:
  assumes "ADMIN_PASSWORD cfg = Some (adminPassword st)"
    and "deleteTarget st = Some t"
    and "outcomes w = []"
  shows "requests (snd (deleteRecord cfg st w))
        = requests w @ [Delete_comments_of (Some t), Delete_record (Some t),
                        Select_records, Select_comments]
    \<and> tbl_comments (snd (deleteRecord cfg st w))
        = filter (\<lambda>c. record_id c \<noteq> t) (tbl_comments w)
    \<and> tbl_records (snd (deleteRecord cfg st w))
        = filter (\<lambda>r. row_id r \<noteq> t) (tbl_records w)
    \<and> (\<forall>r \<in> set (records (fst (deleteRecord cfg st w))).
          row_id r \<noteq> t \<and> (\<forall>c \<in> set (comments r). record_id c \<noteq> t))
    \<and> currentView (fst (deleteRecord cfg st w)) = ''main''
    \<and> \<not> showDeleteModal (fst (deleteRecord cfg st w))"
proof -
  let ?R = "rev (sort_key created_at (filter (\<lambda>r. row_id r \<noteq> t) (tbl_records w)))"
  let ?C = "sort_key comment_created_at (filter (\<lambda>c. record_id c \<noteq> t) (tbl_comments w))"
  note run = deleteRecord_no_fault [OF assms]
  have recs: "records (fst (deleteRecord cfg st w)) = attach_comments ?R ?C"
    unfolding run by simp
  have world: "snd (deleteRecord cfg st w) =
      w\<lparr>tbl_comments := filter (\<lambda>c. record_id c \<noteq> t) (tbl_comments w),
        tbl_records := filter (\<lambda>r. row_id r \<noteq> t) (tbl_records w),
        requests := requests w @ [Delete_comments_of (Some t), Delete_record (Some t),
                                  Select_records, Select_comments],
        alerts := alerts w @ [Record_deleted]\<rparr>"
    unfolding run by simp
  have view: "currentView (fst (deleteRecord cfg st w)) = ''main''"
    and modal: "\<not> showDeleteModal (fst (deleteRecord cfg st w))"
    unfolding run by simp_all
  have gone: "row_id r \<noteq> t" if "r \<in> set (attach_comments ?R ?C)" for r
    using attach_comments_row_id [OF that] by auto
  have orphans: "record_id c \<noteq> t"
    if "r \<in> set (attach_comments ?R ?C)" and "c \<in> set (comments r)" for r c
    using attach_comments_comment [OF that] by simp
  have store: "\<forall>r \<in> set (records (fst (deleteRecord cfg st w))).
          row_id r \<noteq> t \<and> (\<forall>c \<in> set (comments r). record_id c \<noteq> t)"
    unfolding recs using gone orphans by blast
  have rq: "requests (snd (deleteRecord cfg st w))
        = requests w @ [Delete_comments_of (Some t), Delete_record (Some t),
                        Select_records, Select_comments]"
    and tc: "tbl_comments (snd (deleteRecord cfg st w))
        = filter (\<lambda>c. record_id c \<noteq> t) (tbl_comments w)"
    and tr: "tbl_records (snd (deleteRecord cfg st w))
        = filter (\<lambda>r. row_id r \<noteq> t) (tbl_records w)"
    unfolding world by simp_all
  from rq tc tr store view modal show ?thesis by blast
qed

theorem deleteRecord_cascade_witness:
  "map row_id (tbl_records (snd (deleteRecord example_config
       (delete_state\<lparr>adminPassword := ''admin1''\<rparr>) example_world))) = [2]
   \<and> map comment_id (tbl_comments (snd (deleteRecord example_config
       (delete_state\<lparr>adminPassword := ''admin1''\<rparr>) example_world))) = [2]
   \<and> requests (snd (deleteRecord example_config
       (delete_state\<lparr>adminPassword := ''admin1''\<rparr>) example_world))
       = [Delete_comments_of (Some 1), Delete_record (Some 1), Select_records, Select_comments]"
  using deleteRecord_cascade [of example_config "delete_state\<lparr>adminPassword := ''admin1''\<rparr>"
      1 example_world]
  by (simp add: delete_state_def openDeleteModal_def example_config_def example_world_def
        example_rows)

section \<open>Edit\<close>

text \<open>
  Claim C5. When the entered edit password differs from the \<open>author_password\<close> of the
  record being edited, \<open>updateRecord\<close> shows the rejection message and does nothing else:
  the state is unchanged, no request is sent, and both tables are as they were.
\<close>

theorem updateRecord_wrong_password:
  assumes "editTarget st = Some target"
    and "editPassword st \<noteq> author_password target"
  shows "updateRecord env st w = (st, w\<lparr>alerts := alerts w @ [Wrong_password]\<rparr>)
    \<and> requests (snd (updateRecord env st w)) = requests w
    \<and> tbl_records (snd (updateRecord env st w)) = tbl_records w
    \<and> tbl_comments (snd (updateRecord env st w)) = tbl_comments w"
  using assms by (simp add: updateRecord_def alert_def)

theorem updateRecord_wrong_password_witness:
  "updateRecord example_builtins (edit_state\<lparr>editPassword := ''wrong''\<rparr>) example_world
     = (edit_state\<lparr>editPassword := ''wrong''\<rparr>, example_world\<lparr>alerts := [Wrong_password]\<rparr>)"
  using updateRecord_wrong_password [of "edit_state\<lparr>editPassword := ''wrong''\<rparr>"
      soup_kitchen_record example_builtins example_world]
  by (simp add: edit_state_def openEditModal_def soup_kitchen_record_def soup_kitchen_def
        record_row.extend_def volunteer_record.fields_def example_world_def)

text \<open>
  Claim C9. A successful edit sends one update, scoped to the identifier of the target,
  whose body assigns the eight editable columns and no other. In the store the columns
  \<open>id\<close>, \<open>created_at\<close>, \<open>author_name\<close> and \<open>author_password\<close> of every row are as before,
  the rows of other records are untouched, and so are the comments.
\<close>

theorem updateRecord_keeps_identity:
  assumes "editTarget st = Some target"
    and "editPassword st = author_password target"
    and "form_date (formData st) \<noteq> []" and "form_name (formData st) \<noteq> []"
    and "form_organization (formData st) \<noteq> []" and "form_hours (formData st) \<noteq> []"
    and "outcomes w = []"
  shows "requests (snd (updateRecord env st w)) = requests w @
          [Update_record
             [Set_date (form_date (formData st)), Set_name (form_name (formData st)),
              Set_organization (form_organization (formData st)),
              Set_hours (parseFloat env (form_hours (formData st))),
              Set_location (or_null (form_location (formData st))),
              Set_participants (or_null (form_participants (formData st))),
              Set_description (or_null (form_description (formData st))),
              Set_photos (selectedPhotos st)]
             (row_id target),
           Select_records, Select_comments]
    \<and> map row_id (tbl_records (snd (updateRecord env st w))) = map row_id (tbl_records w)
    \<and> map created_at (tbl_records (snd (updateRecord env st w))) = map created_at (tbl_records w)
    \<and> map author_name (tbl_records (snd (updateRecord env st w)))
        = map author_name (tbl_records w)
    \<and> map author_password (tbl_records (snd (updateRecord env st w)))
        = map author_password (tbl_records w)
    \<and> filter (\<lambda>r. row_id r \<noteq> row_id target) (tbl_records (snd (updateRecord env st w)))
        = filter (\<lambda>r. row_id r \<noteq> row_id target) (tbl_records w)
    \<and> tbl_comments (snd (updateRecord env st w)) = tbl_comments w"
proof -
  note run = updateRecord_no_fault [OF assms]
  have rq: "requests (snd (updateRecord env st w)) = requests w @
          [Update_record
             [Set_date (form_date (formData st)), Set_name (form_name (formData st)),
              Set_organization (form_organization (formData st)),
              Set_hours (parseFloat env (form_hours (formData st))),
              Set_location (or_null (form_location (formData st))),
              Set_participants (or_null (form_participants (formData st))),
              Set_description (or_null (form_description (formData st))),
              Set_photos (selectedPhotos st)]
             (row_id target),
           Select_records, Select_comments]"
    unfolding run by simp
  have ids: "map row_id (tbl_records (snd (updateRecord env st w))) = map row_id (tbl_records w)"
    unfolding run by (simp add: comp_def cong: map_cong)
  have cr: "map created_at (tbl_records (snd (updateRecord env st w)))
      = map created_at (tbl_records w)"
    unfolding run by (simp add: comp_def cong: map_cong)
  have an: "map author_name (tbl_records (snd (updateRecord env st w)))
      = map author_name (tbl_records w)"
    unfolding run by (simp add: comp_def cong: map_cong)
  have ap: "map author_password (tbl_records (snd (updateRecord env st w)))
      = map author_password (tbl_records w)"
    unfolding run by (simp add: comp_def cong: map_cong)
  have others: "filter (\<lambda>r. row_id r \<noteq> row_id target)
        (tbl_records (snd (updateRecord env st w)))
      = filter (\<lambda>r. row_id r \<noteq> row_id target) (tbl_records w)"
    unfolding run by (simp add: filter_other_rows)
  have tc: "tbl_comments (snd (updateRecord env st w)) = tbl_comments w"
    unfolding run by simp
  from rq ids cr an ap others tc show ?thesis by blast
qed

theorem updateRecord_keeps_identity_witness:
  "map author_password (tbl_records (snd (updateRecord example_builtins
       (edit_state\<lparr>editPassword := ''x1''\<rparr>) example_world))) = [''x1'', ''z3'']
   \<and> map row_id (tbl_records (snd (updateRecord example_builtins
       (edit_state\<lparr>editPassword := ''x1''\<rparr>) example_world))) = [1, 2]"
  using updateRecord_keeps_identity [of "edit_state\<lparr>editPassword := ''x1''\<rparr>"
      soup_kitchen_record example_world example_builtins]
  by (simp add: edit_state_def openEditModal_def soup_kitchen_record_def
        record_row.extend_def volunteer_record.fields_def example_world_def
        example_builtins_def example_rows)


text \<open>
  Claim C10. In create and in edit, each of \<open>location\<close>, \<open>participants\<close> and
  \<open>description\<close> is stored as null when its draft field is the empty string, and as the
  text of the field otherwise: in the row that a successful \<open>addRecord\<close> inserts, and in
  the row of the target after a successful \<open>updateRecord\<close>.
\<close>

theorem optional_fields_null_when_empty:
  "(form_date (formData st) \<noteq> [] \<and> form_name (formData st) \<noteq> []
      \<and> form_organization (formData st) \<noteq> [] \<and> form_hours (formData st) \<noteq> []
      \<and> form_author_name (formData st) \<noteq> [] \<and> form_author_password (formData st) \<noteq> []
      \<and> outcomes w = []
    \<longrightarrow> length (tbl_records (snd (addRecord env st w))) = Suc (length (tbl_records w))
      \<and> location (last (tbl_records (snd (addRecord env st w))))
          = (if form_location (formData st) = [] then None
             else Some (form_location (formData st)))
      \<and> participants (last (tbl_records (snd (addRecord env st w))))
          = (if form_participants (formData st) = [] then None
             else Some (form_participants (formData st)))
      \<and> description (last (tbl_records (snd (addRecord env st w))))
          = (if form_description (formData st) = [] then None
             else Some (form_description (formData st))))
   \<and> (editTarget st = Some target \<and> editPassword st = author_password target
      \<and> form_date (formData st) \<noteq> [] \<and> form_name (formData st) \<noteq> []
      \<and> form_organization (formData st) \<noteq> [] \<and> form_hours (formData st) \<noteq> []
      \<and> outcomes w = []
    \<longrightarrow> (\<forall>r \<in> set (tbl_records (snd (updateRecord env st w))).
          row_id r = row_id target \<longrightarrow>
            location r = (if form_location (formData st) = [] then None
                          else Some (form_location (formData st)))
          \<and> participants r = (if form_participants (formData st) = [] then None
                              else Some (form_participants (formData st)))
          \<and> description r = (if form_description (formData st) = [] then None
                             else Some (form_description (formData st)))))"
proof (intro conjI impI ballI)
  assume a: "form_date (formData st) \<noteq> [] \<and> form_name (formData st) \<noteq> []
      \<and> form_organization (formData st) \<noteq> [] \<and> form_hours (formData st) \<noteq> []
      \<and> form_author_name (formData st) \<noteq> [] \<and> form_author_password (formData st) \<noteq> []
      \<and> outcomes w = []"
  then have run: "tbl_records (snd (addRecord env st w)) = tbl_records w @
      [\<lparr>row_id = next_record_id w, created_at = now w, date = form_date (formData st),
        name = form_name (formData st), organization = form_organization (formData st),
        hours = parseFloat env (form_hours (formData st)),
        location = or_null (form_location (formData st)),
        participants = or_null (form_participants (formData st)),
        description = or_null (form_description (formData st)),
        author_name = form_author_name (formData st),
        author_password = form_author_password (formData st),
        photos = selectedPhotos st\<rparr>]"
    by (intro addRecord_no_fault) simp_all
  show "length (tbl_records (snd (addRecord env st w))) = Suc (length (tbl_records w))"
    unfolding run by simp
  show "location (last (tbl_records (snd (addRecord env st w))))
          = (if form_location (formData st) = [] then None
             else Some (form_location (formData st)))"
    unfolding run by (simp add: or_null_def)
  show "participants (last (tbl_records (snd (addRecord env st w))))
          = (if form_participants (formData st) = [] then None
             else Some (form_participants (formData st)))"
    unfolding run by (simp add: or_null_def)
  show "description (last (tbl_records (snd (addRecord env st w))))
          = (if form_description (formData st) = [] then None
             else Some (form_description (formData st)))"
    unfolding run by (simp add: or_null_def)
next
  fix r
  assume a: "editTarget st = Some target \<and> editPassword st = author_password target
      \<and> form_date (formData st) \<noteq> [] \<and> form_name (formData st) \<noteq> []
      \<and> form_organization (formData st) \<noteq> [] \<and> form_hours (formData st) \<noteq> []
      \<and> outcomes w = []"
    and r: "r \<in> set (tbl_records (snd (updateRecord env st w)))"
    and t: "row_id r = row_id target"
  have row: "location r = or_null (form_location (formData st))
    \<and> participants r = or_null (form_participants (formData st))
    \<and> description r = or_null (form_description (formData st))"
    using a r t by (intro updateRecord_target_row [where w = w and env = env]) simp_all
  show "location r = (if form_location (formData st) = [] then None
                          else Some (form_location (formData st)))"
    using row by (simp add: or_null_def)
  show "participants r = (if form_participants (formData st) = [] then None
                              else Some (form_participants (formData st)))"
    using row by (simp add: or_null_def)
  show "description r = (if form_description (formData st) = [] then None
                             else Some (form_description (formData st)))"
    using row by (simp add: or_null_def)
qed

theorem optional_fields_null_when_empty_witness:
  "location (last (tbl_records (snd (addRecord example_builtins create_state example_world))))
     = None
   \<and> participants (last (tbl_records (snd (addRecord example_builtins create_state
         example_world)))) = Some ''Ana, Bo''
   \<and> map location (filter (\<lambda>r. row_id r = 1)
        (tbl_records (snd (updateRecord example_builtins (edit_state\<lparr>editPassword := ''x1''\<rparr>)
           example_world)))) = [None]"
  using optional_fields_null_when_empty [of create_state example_world example_builtins
      soup_kitchen_record]
    optional_fields_null_when_empty [of "edit_state\<lparr>editPassword := ''x1''\<rparr>" example_world
      example_builtins soup_kitchen_record]
  by (simp add: create_state_def updateRecord_no_fault [where target = soup_kitchen_record]
        edit_state_def openEditModal_def soup_kitchen_record_def
        record_row.extend_def volunteer_record.fields_def example_world_def
        example_builtins_def example_rows or_null_def or_empty_def)

text \<open>
  Claim C1. Closing a modal is claimed to clear its credential input. The close button of
  the edit modal closes the modal, forgets the target and resets the form, and leaves the
  state hook \<open>editPassword\<close> as typed; the successful \<open>updateRecord\<close> and the cancel
  buttons of the other modals clear theirs (\<open>updateRecord_success_clears_editPassword\<close>,
  \<open>cancel_paths_clear_credential\<close>). Here the edit modal is opened on the first record,
  the password \<open>x1\<close> is typed and the modal is closed with its close button.
\<close>

theorem closeEditModal_keeps_editPassword:
  "editPassword (fst (closeEditModal example_builtins (edit_state\<lparr>editPassword := ''x1''\<rparr>)
       example_world)) = ''x1''
   \<and> \<not> showEditModal (fst (closeEditModal example_builtins
       (edit_state\<lparr>editPassword := ''x1''\<rparr>) example_world))"
  by (simp add: closeEditModal_def resetForm_def)

section \<open>Comments\<close>

text \<open>
  Claim C8. \<open>addComment\<close> rejects the draft, sending nothing, when the nickname, the
  password or the content is empty after trimming, that is, when one of them consists of
  white space only. Otherwise, when the insert succeeds, the stored comment has the
  trimmed nickname, the trimmed content, and the password exactly as entered.
\<close>

theorem addComment_trims:
  "(trim (draft_nickname (newComment st)) = [] \<or> trim (draft_password (newComment st)) = []
      \<or> trim (draft_content (newComment st)) = []
    \<longrightarrow> addComment env recordId st w
          = (st, w\<lparr>alerts := alerts w @ [Comment_fields_required]\<rparr>))
   \<and> (trim (draft_nickname (newComment st)) \<noteq> [] \<and> trim (draft_password (newComment st)) \<noteq> []
      \<and> trim (draft_content (newComment st)) \<noteq> [] \<and> outcomes w = []
    \<longrightarrow> tbl_comments (snd (addComment env recordId st w)) = tbl_comments w @
          [\<lparr>comment_id = next_comment_id w, comment_created_at = Some (now w),
            record_id = recordId, nickname = trim (draft_nickname (newComment st)),
            password = draft_password (newComment st),
            content = trim (draft_content (newComment st)),
            timestamp = toLocaleString_ko env (now w)\<rparr>])
   \<and> (\<forall>s. (trim s = []) = (\<forall>c \<in> set s. white_space c))"
proof -
  have accept: "tbl_comments (snd (addComment env recordId st w)) = tbl_comments w @
          [\<lparr>comment_id = next_comment_id w, comment_created_at = Some (now w),
            record_id = recordId, nickname = trim (draft_nickname (newComment st)),
            password = draft_password (newComment st),
            content = trim (draft_content (newComment st)),
            timestamp = toLocaleString_ko env (now w)\<rparr>]"
    if "trim (draft_nickname (newComment st)) \<noteq> []"
      and "trim (draft_password (newComment st)) \<noteq> []"
      and "trim (draft_content (newComment st)) \<noteq> []" and "outcomes w = []"
    unfolding addComment_no_fault [OF that] by simp
  show ?thesis
    using accept addComment_rejects [of st env recordId w] trim_empty_iff by blast
qed

theorem addComment_trims_witness:
  "map (\<lambda>c. (nickname c, password c, content c))
     (tbl_comments (snd (addComment example_builtins 2 comment_state example_world)))
   = [(''Bo'', ''y2'', ''Great work''), (''Di'', ''q4'', ''Clean river''),
      (''Ed'', ''r5'', ''Thanks''), (''Bo'', '' y2 '', ''Great work'')]"
  using addComment_trims [of comment_state example_builtins 2 example_world]
  by (simp add: comment_state_def trim_def white_space_def example_world_def example_rows)

section \<open>The setup check\<close>

text \<open>
  Claim C2, as amended. When the store endpoint or the API credential is its placeholder
  text, the component renders the setup screen, on mount and in every later state, and
  while it does no insert, update or delete is ever sent: whatever the visitor does and
  whichever conversions complete, the requests are those of the one load started on mount,
  the select of the records and, if that succeeds, the select of the comments, and both
  tables of the store are as they were.
\<close>

theorem setup_state_sends_only_the_load:
  assumes "SUPABASE_URL cfg = Some ''YOUR_SUPABASE_URL''
     \<or> SUPABASE_ANON_KEY cfg = Some ''YOUR_SUPABASE_ANON_KEY''"
  shows "fst (mount env cfg w) = Setup_required
    \<and> render cfg (fst (run env cfg evs (snd (mount env cfg w)))) = Setup_required
    \<and> requests (snd (run env cfg evs (snd (mount env cfg w))))
        = requests (snd (snd (mount env cfg w)))
    \<and> (requests (snd (snd (mount env cfg w))) = requests w @ [Select_records]
       \<or> requests (snd (snd (mount env cfg w))) = requests w @ [Select_records, Select_comments])
    \<and> tbl_records (snd (run env cfg evs (snd (mount env cfg w)))) = tbl_records w
    \<and> tbl_comments (snd (run env cfg evs (snd (mount env cfg w)))) = tbl_comments w"
proof -
  let ?s0 = "snd (mount env cfg w)"
  have scr: "render cfg st = Setup_required" for st :: "'a app_state"
    using assms by (auto simp: render_def)
  have first: "fst (mount env cfg w) = Setup_required"
    by (simp add: mount_def Let_def scr)
  have s0: "?s0 = loadRecords (initial_state env w) w"
    by (simp add: mount_def Let_def)
  have load: "requests (snd ?s0) = requests w @ [Select_records]
       \<or> requests (snd ?s0) = requests w @ [Select_records, Select_comments]"
    unfolding s0 by (rule loadRecords_requests)
  have tables: "tbl_records (snd ?s0) = tbl_records w \<and> tbl_comments (snd ?s0) = tbl_comments w"
    unfolding s0 by (rule loadRecords_tables)
  note later = run_setup [OF assms, of env evs ?s0]
  from first scr load tables later show ?thesis by simp
qed

theorem setup_state_sends_only_the_load_witness:
  "fst (mount example_builtins placeholder_config unreachable_world) = Setup_required
   \<and> requests (snd (run example_builtins placeholder_config
        [Register_clicked, Form_field_changed Field_name ''Food Bank'', Create_submitted,
         Delete_confirmed, Comment_submitted]
        (snd (mount example_builtins placeholder_config unreachable_world))))
       = [Select_records]"
  using setup_state_sends_only_the_load [of placeholder_config example_builtins
      unreachable_world
      "[Register_clicked, Form_field_changed Field_name ''Food Bank'', Create_submitted,
        Delete_confirmed, Comment_submitted]"]
  by (simp add: placeholder_mount) (simp add: placeholder_config_def)

text \<open>
  The claim as stated fails: mounted with the placeholder configuration, the component
  renders the setup screen and its load effect still sends the select of the records; and
  mounted with no variable set it renders the loading screen, not the setup screen.
\<close>

theorem mount_counterexample:
  "fst (mount example_builtins placeholder_config unreachable_world) = Setup_required
   \<and> requests (snd (snd (mount example_builtins placeholder_config unreachable_world)))
       = [Select_records]
   \<and> fst (mount example_builtins missing_config unreachable_world) = Loading_screen"
  by (simp add: mount_def render_def loadRecords_def fetch_def next_outcome_def
        placeholder_config_def missing_config_def unreachable_world_def example_world_def
        initial_state_def alert_def)

end
